theory Spec2Isabelle
  imports Complex_Main
begin

section \<open>Data model of \<open>backend/bb84_engine.py\<close>\<close>

text \<open>
  Bases are the two strings \<open>'Z'\<close> and \<open>'X'\<close> that \<open>random.choice(['Z', 'X'])\<close> returns.
  Bits are Python integers. A circuit of the physics backend is the list of the gates
  appended to a one-qubit \<open>QuantumCircuit(1, 1)\<close>.
\<close>

datatype basis = Z | X

datatype gate = XGate | HGate | Measure

text \<open>
  The exceptions of the model. \<open>ZeroDivisionError\<close>, \<open>IndexError\<close> and \<open>OverflowError\<close>
  are the ones the statements of the source can raise on well-typed inputs.
  \<open>ValidationError\<close> is the failure the specification names for a negative photon count;
  no statement of the source raises it.
\<close>

datatype error = ZeroDivisionError | IndexError | OverflowError | ValidationError

text \<open>
  The dataclass \<open>BB84Result\<close>. A float is modelled by the real number it denotes; the
  three metrics are floats, or the integer 0 where the source returns that.
\<close>

record BB84Result =
  alice_bits :: "int list"
  alice_bases :: "basis list"
  bob_bits :: "int list"
  bob_bases :: "basis list"
  eve_bits :: "int option list"
  eve_bases :: "basis option list"
  eve_interceptions :: "bool list"
  matching_bases :: "bool list"
  final_key :: "int list"
  error_rate :: real
  include_eve :: bool
  transmission_efficiency :: real
  quantum_fidelity :: real

text \<open>
  A Python number: an unbounded integer or a float. The two are kept apart where the
  source divides, because \<open>int / int\<close> can raise \<open>OverflowError\<close> and \<open>float / int\<close>
  cannot.
\<close>

datatype number = IntNum int | FloatNum real

text \<open>
  The dictionary \<open>params\<close>: each of the four keys may be absent, and \<open>params.get\<close> then
  supplies the default. \<open>noiseLevel\<close> is only ever compared, which Python does on the exact
  values, so it is held as the value of the number given.
\<close>

record params =
  numQubits :: "int option"
  includeEve :: "bool option"
  eveInterceptionRate :: "number option"
  noiseLevel :: "real option"

text \<open>
  Float arithmetic rounds, and how it rounds is outside the repository: \<open>nearest\<close> is the
  rounding of an exact value to a double, taken as a parameter.
\<close>

record float_arith =
  nearest :: "real \<Rightarrow> real"

text \<open>
  The entropy the engine consumes comes from outside the repository: Python's global
  \<open>random\<close> module and, in the physics backend, one shot of the Aer simulator. It is taken
  as a parameter: a state \<open>'g\<close> and one operation for each call the source makes, each
  returning the value drawn and the next state.
  \<^item> \<open>randint01\<close> is \<open>random.randint(0, 1)\<close>;
  \<^item> \<open>choice_basis\<close> is \<open>random.choice(['Z', 'X'])\<close>;
  \<^item> \<open>random_unit\<close> is \<open>random.random()\<close>;
  \<^item> \<open>run_shot qc\<close> is the transpile-and-run of \<open>qc\<close> with \<open>shots=1\<close>, read back as
    \<open>int(list(result.get_counts().keys())[0])\<close>.
\<close>

record 'g rng =
  randint01 :: "'g \<Rightarrow> int \<times> 'g"
  choice_basis :: "'g \<Rightarrow> basis \<times> 'g"
  random_unit :: "'g \<Rightarrow> real \<times> 'g"
  run_shot :: "gate list \<Rightarrow> 'g \<Rightarrow> int \<times> 'g"

text \<open>What one pass of the photon loop appends: interception flag, Eve's bit, Eve's basis, Bob's bit.\<close>

type_synonym photon = "bool \<times> int option \<times> basis option \<times> int"

text \<open>The four lists the photon loop builds: \<open>eve_interceptions\<close>, \<open>eve_bits\<close>, \<open>eve_bases\<close>, \<open>bob_bits\<close>.\<close>

type_synonym tracks = "bool list \<times> int option list \<times> basis option list \<times> int list"

section \<open>Operations\<close>

text \<open>\<open>xs[i]\<close> for a non-negative index: past the end Python raises \<open>IndexError\<close>.\<close>

definition nth_py :: "'a list \<Rightarrow> nat \<Rightarrow> error + 'a" where
  "nth_py xs i = (if i < length xs then Inr (xs ! i) else Inl IndexError)"

text \<open>
  The double that a correctly rounded operation returns for the exact value \<open>x\<close>: an
  integer of magnitude up to \<open>2^53\<close> is a double and is returned as it is, anything else is
  rounded.
\<close>

definition double_of :: "float_arith \<Rightarrow> real \<Rightarrow> real" where
  "double_of F x = (if x = of_int \<lfloor>x\<rfloor> \<and> \<bar>x\<bar> \<le> 2 ^ 53 then x else nearest F x)"

text \<open>
  From this magnitude on, rounding to nearest leaves the finite doubles: it is the midpoint
  of the largest double, \<open>2^1024 - 2^971\<close>, and \<open>2^1024\<close>.
\<close>

definition overflow_bound :: real where
  "overflow_bound = 2 ^ 1024 - 2 ^ 970"

text \<open>
  \<open>a / b\<close> on two Python integers: \<open>ZeroDivisionError\<close> for a zero divisor,
  \<open>OverflowError\<close> when the quotient is too large for a float, and the correctly rounded
  quotient otherwise.
\<close>

definition int_truediv :: "float_arith \<Rightarrow> int \<Rightarrow> int \<Rightarrow> error + real" where
  "int_truediv F a b =
     (if b = 0 then Inl ZeroDivisionError
      else if overflow_bound \<le> \<bar>of_int a / of_int b\<bar> then Inl OverflowError
      else Inr (double_of F (of_int a / of_int b)))"

text \<open>
  \<open>x / 100\<close> on a number: true division of integers when \<open>x\<close> is an integer; when \<open>x\<close>
  is a float, the float division by \<open>100.0\<close>, which never raises.
\<close>

fun div_100 :: "float_arith \<Rightarrow> number \<Rightarrow> error + real" where
  "div_100 F (IntNum a) = int_truediv F a 100"
| "div_100 F (FloatNum x) = Inr (double_of F (x / 100))"

text \<open>The comprehension \<open>[draw() for _ in range(n)]\<close>.\<close>

fun draws :: "('g \<Rightarrow> 'a \<times> 'g) \<Rightarrow> nat \<Rightarrow> 'g \<Rightarrow> 'a list \<times> 'g" where
  "draws d 0 g = ([], g)"
| "draws d (Suc n) g =
     (case d g of (x, g1) \<Rightarrow> (case draws d n g1 of (xs, g2) \<Rightarrow> (x # xs, g2)))"

text \<open>
  \<open>include_eve and random.random() < eve_rate\<close>: the draw is made only when
  \<open>include_eve\<close> holds.
\<close>

definition eve_intercepts_draw :: "'g rng \<Rightarrow> bool \<Rightarrow> real \<Rightarrow> 'g \<Rightarrow> bool \<times> 'g" where
  "eve_intercepts_draw R inc_eve eve_rate g =
     (if inc_eve then (case random_unit R g of (u, g1) \<Rightarrow> (u < eve_rate, g1))
      else (False, g))"

subsection \<open>The probabilistic backend: \<open>_classical_simulation\<close>\<close>

text \<open>
  Eve's part of the loop body. The value is Eve's bit and basis as recorded, and the
  transmitted bit and basis.
\<close>

definition eve_classical ::
  "'g rng \<Rightarrow> bool \<Rightarrow> int list \<Rightarrow> basis list \<Rightarrow> nat \<Rightarrow> 'g
     \<Rightarrow> (error + (int option \<times> basis option \<times> int \<times> basis)) \<times> 'g" where
  "eve_classical R eve_intercepts a_bits a_bases i g =
     (if eve_intercepts then
        (case choice_basis R g of (eve_basis, g1) \<Rightarrow>
           (case nth_py a_bases i of
              Inl e \<Rightarrow> (Inl e, g1)
            | Inr a_basis \<Rightarrow>
                if eve_basis = a_basis then
                  (case nth_py a_bits i of
                     Inl e \<Rightarrow> (Inl e, g1)
                   | Inr eve_bit \<Rightarrow> (Inr (Some eve_bit, Some eve_basis, eve_bit, eve_basis), g1))
                else
                  (case randint01 R g1 of (eve_bit, g2) \<Rightarrow>
                     (Inr (Some eve_bit, Some eve_basis, eve_bit, eve_basis), g2))))
      else
        (case nth_py a_bits i of
           Inl e \<Rightarrow> (Inl e, g)
         | Inr transmitted_bit \<Rightarrow>
             (case nth_py a_bases i of
                Inl e \<Rightarrow> (Inl e, g)
              | Inr transmitted_basis \<Rightarrow>
                  (Inr (None, None, transmitted_bit, transmitted_basis), g))))"

text \<open>Bob's measurement in the loop body.\<close>

definition bob_classical ::
  "'g rng \<Rightarrow> real \<Rightarrow> basis list \<Rightarrow> nat \<Rightarrow> int \<Rightarrow> basis \<Rightarrow> 'g \<Rightarrow> (error + int) \<times> 'g" where
  "bob_classical R noise_level b_bases i transmitted_bit transmitted_basis g =
     (case nth_py b_bases i of
        Inl e \<Rightarrow> (Inl e, g)
      | Inr b_basis \<Rightarrow>
          if b_basis = transmitted_basis then
            (case random_unit R g of (u, g1) \<Rightarrow>
               (Inr (if u < noise_level then 1 - transmitted_bit else transmitted_bit), g1))
          else
            (case randint01 R g of (bob_bit, g1) \<Rightarrow> (Inr bob_bit, g1)))"

text \<open>One pass of the loop \<open>for i in range(num_qubits)\<close> of \<open>_classical_simulation\<close>.\<close>

definition classical_photon ::
  "'g rng \<Rightarrow> bool \<Rightarrow> real \<Rightarrow> real \<Rightarrow> int list \<Rightarrow> basis list \<Rightarrow> basis list \<Rightarrow> nat \<Rightarrow> 'g
     \<Rightarrow> (error + photon) \<times> 'g" where
  "classical_photon R inc_eve eve_rate noise_level a_bits a_bases b_bases i g =
     (case eve_intercepts_draw R inc_eve eve_rate g of (eve_intercepts, g1) \<Rightarrow>
        (case eve_classical R eve_intercepts a_bits a_bases i g1 of
           (Inl e, g2) \<Rightarrow> (Inl e, g2)
         | (Inr (eve_bit, eve_basis, transmitted_bit, transmitted_basis), g2) \<Rightarrow>
             (case bob_classical R noise_level b_bases i transmitted_bit transmitted_basis g2 of
                (Inl e, g3) \<Rightarrow> (Inl e, g3)
              | (Inr bob_bit, g3) \<Rightarrow> (Inr (eve_intercepts, eve_bit, eve_basis, bob_bit), g3))))"

subsection \<open>The physics backend: \<open>_quantum_simulation\<close>\<close>

text \<open>
  The circuit that encodes a bit in a basis, as Alice builds it and as Eve builds
  \<open>qc_new\<close>: \<open>x(0)\<close> when the bit is 1, then \<open>h(0)\<close> when the basis is \<open>'X'\<close>.
\<close>

definition prepare_circuit :: "int \<Rightarrow> basis \<Rightarrow> gate list" where
  "prepare_circuit v b = (if v = 1 then [XGate] else []) @ (if b = X then [HGate] else [])"

text \<open>Measuring a circuit in a basis: \<open>h(0)\<close> when the basis is \<open>'X'\<close>, then \<open>measure(0, 0)\<close>.\<close>

definition measure_in :: "gate list \<Rightarrow> basis \<Rightarrow> gate list" where
  "measure_in qc b = qc @ (if b = X then [HGate] else []) @ [Measure]"

text \<open>
  Eve's part of the loop body. The value is Eve's bit and basis as recorded, and the
  circuit that goes on to Bob.
\<close>

definition eve_quantum ::
  "'g rng \<Rightarrow> bool \<Rightarrow> gate list \<Rightarrow> 'g \<Rightarrow> (int option \<times> basis option \<times> gate list) \<times> 'g" where
  "eve_quantum R eve_intercepts qc g =
     (if eve_intercepts then
        (case choice_basis R g of (eve_basis, g1) \<Rightarrow>
           (case run_shot R (measure_in qc eve_basis) g1 of (eve_bit, g2) \<Rightarrow>
              ((Some eve_bit, Some eve_basis, prepare_circuit eve_bit eve_basis), g2)))
      else ((None, None, qc), g))"

text \<open>One pass of the loop of \<open>_quantum_simulation\<close>; \<open>noise_level\<close> is not read there.\<close>

definition quantum_photon ::
  "'g rng \<Rightarrow> bool \<Rightarrow> real \<Rightarrow> int list \<Rightarrow> basis list \<Rightarrow> basis list \<Rightarrow> nat \<Rightarrow> 'g
     \<Rightarrow> (error + photon) \<times> 'g" where
  "quantum_photon R inc_eve eve_rate a_bits a_bases b_bases i g =
     (case nth_py a_bits i of
        Inl e \<Rightarrow> (Inl e, g)
      | Inr a_bit \<Rightarrow>
          (case nth_py a_bases i of
             Inl e \<Rightarrow> (Inl e, g)
           | Inr a_basis \<Rightarrow>
               (case eve_intercepts_draw R inc_eve eve_rate g of (eve_intercepts, g1) \<Rightarrow>
                  (case eve_quantum R eve_intercepts (prepare_circuit a_bit a_basis) g1 of
                     ((eve_bit, eve_basis, qc), g2) \<Rightarrow>
                       (case nth_py b_bases i of
                          Inl e \<Rightarrow> (Inl e, g2)
                        | Inr b_basis \<Rightarrow>
                            (case run_shot R (measure_in qc b_basis) g2 of (bob_bit, g3) \<Rightarrow>
                               (Inr (eve_intercepts, eve_bit, eve_basis, bob_bit), g3)))))))"

subsection \<open>The photon loop\<close>

text \<open>
  \<open>for i in range(num_qubits)\<close>: the body runs for each index in order and its four values
  are appended to the four lists; the first exception ends the loop.
\<close>

fun photon_loop ::
  "(nat \<Rightarrow> 'g \<Rightarrow> (error + photon) \<times> 'g) \<Rightarrow> nat list \<Rightarrow> tracks \<Rightarrow> 'g \<Rightarrow> (error + tracks) \<times> 'g" where
  "photon_loop body [] acc g = (Inr acc, g)"
| "photon_loop body (i # rest) (e_int, e_bits, e_bases, b_bits) g =
     (case body i g of
        (Inl e, g1) \<Rightarrow> (Inl e, g1)
      | (Inr (eve_intercepts, eve_bit, eve_basis, bob_bit), g1) \<Rightarrow>
          photon_loop body rest
            (e_int @ [eve_intercepts], e_bits @ [eve_bit], e_bases @ [eve_basis], b_bits @ [bob_bit]) g1)"

subsection \<open>\<open>_process_results\<close> and \<open>_calculate_fidelity\<close>\<close>

text \<open>
  The loop \<open>for i, matches in enumerate(matching_bases)\<close> over the state
  \<open>(final_key, matching_count, error_count)\<close>.
\<close>

fun key_loop ::
  "int list \<Rightarrow> int list \<Rightarrow> (nat \<times> bool) list \<Rightarrow> int list \<times> nat \<times> nat
     \<Rightarrow> error + (int list \<times> nat \<times> nat)" where
  "key_loop a_bits b_bits [] acc = Inr acc"
| "key_loop a_bits b_bits ((i, matches) # rest) (f_key, matching_count, error_count) =
     (if matches then
        (case nth_py a_bits i of
           Inl e \<Rightarrow> Inl e
         | Inr a \<Rightarrow>
             (case nth_py b_bits i of
                Inl e \<Rightarrow> Inl e
              | Inr b \<Rightarrow>
                  if a = b then key_loop a_bits b_bits rest (f_key @ [a], matching_count + 1, error_count)
                  else key_loop a_bits b_bits rest (f_key, matching_count + 1, error_count + 1)))
      else key_loop a_bits b_bits rest (f_key, matching_count, error_count))"

text \<open>
  \<open>sum(1 for i, matches in enumerate(matching_bases) if matches and alice_bits[i] == bob_bits[i])\<close>.
\<close>

fun correct_measurements :: "int list \<Rightarrow> int list \<Rightarrow> (nat \<times> bool) list \<Rightarrow> error + nat" where
  "correct_measurements a_bits b_bits [] = Inr 0"
| "correct_measurements a_bits b_bits ((i, matches) # rest) =
     (if matches then
        (case nth_py a_bits i of
           Inl e \<Rightarrow> Inl e
         | Inr a \<Rightarrow>
             (case nth_py b_bits i of
                Inl e \<Rightarrow> Inl e
              | Inr b \<Rightarrow>
                  (case correct_measurements a_bits b_bits rest of
                     Inl e \<Rightarrow> Inl e
                   | Inr c \<Rightarrow> Inr ((if a = b then 1 else 0) + c))))
      else correct_measurements a_bits b_bits rest)"

definition calculate_fidelity ::
  "float_arith \<Rightarrow> int list \<Rightarrow> int list \<Rightarrow> bool list \<Rightarrow> error + real" where
  "calculate_fidelity F a_bits b_bits m_bases =
     (let matching_count = (\<Sum>m\<leftarrow>m_bases. if m then 1 else 0 :: nat) in
      if matching_count = 0 then Inr 0
      else
        (case correct_measurements a_bits b_bits (enumerate 0 m_bases) of
           Inl e \<Rightarrow> Inl e
         | Inr c \<Rightarrow> int_truediv F (int c) (int matching_count)))"

definition process_results ::
  "float_arith \<Rightarrow> int list \<Rightarrow> basis list \<Rightarrow> int list \<Rightarrow> basis list \<Rightarrow> int option list
     \<Rightarrow> basis option list \<Rightarrow> bool list \<Rightarrow> bool \<Rightarrow> error + BB84Result" where
  "process_results F a_bits a_bases b_bits b_bases e_bits e_bases e_int inc_eve =
     (let m_bases = map (\<lambda>(a, b). a = b) (zip a_bases b_bases) in
      case key_loop a_bits b_bits (enumerate 0 m_bases) ([], 0, 0) of
        Inl e \<Rightarrow> Inl e
      | Inr (f_key, matching_count, error_count) \<Rightarrow>
          (case (if matching_count > 0 then int_truediv F (int error_count) (int matching_count)
                 else Inr 0) of
             Inl e \<Rightarrow> Inl e
           | Inr e_rate \<Rightarrow>
               (case int_truediv F (int (length f_key)) (int (length a_bits)) of
                  Inl e \<Rightarrow> Inl e
                | Inr t_eff \<Rightarrow>
                    (case calculate_fidelity F a_bits b_bits m_bases of
                       Inl e \<Rightarrow> Inl e
                     | Inr q_fid \<Rightarrow>
                         Inr \<lparr> alice_bits = a_bits, alice_bases = a_bases,
                               bob_bits = b_bits, bob_bases = b_bases,
                               eve_bits = e_bits, eve_bases = e_bases,
                               eve_interceptions = e_int, matching_bases = m_bases,
                               final_key = f_key, error_rate = e_rate, include_eve = inc_eve,
                               transmission_efficiency = t_eff, quantum_fidelity = q_fid \<rparr>))))"

subsection \<open>The two simulations and the entry point\<close>

text \<open>
  Both simulations draw Alice's bits, Alice's bases and Bob's bases first, run the photon
  loop over \<open>range(num_qubits)\<close> (empty for a count below one) and hand the lists to
  \<open>_process_results\<close>. They differ in the loop body only.
\<close>

definition run_simulation ::
  "float_arith \<Rightarrow> 'g rng
     \<Rightarrow> (int list \<Rightarrow> basis list \<Rightarrow> basis list \<Rightarrow> nat \<Rightarrow> 'g \<Rightarrow> (error + photon) \<times> 'g)
     \<Rightarrow> int \<Rightarrow> bool \<Rightarrow> 'g \<Rightarrow> (error + BB84Result) \<times> 'g" where
  "run_simulation F R body num_qubits inc_eve g =
     (case draws (randint01 R) (nat num_qubits) g of (a_bits, g1) \<Rightarrow>
     (case draws (choice_basis R) (nat num_qubits) g1 of (a_bases, g2) \<Rightarrow>
     (case draws (choice_basis R) (nat num_qubits) g2 of (b_bases, g3) \<Rightarrow>
     (case photon_loop (body a_bits a_bases b_bases) [0..<nat num_qubits] ([], [], [], []) g3 of
        (Inl e, g4) \<Rightarrow> (Inl e, g4)
      | (Inr (e_int, e_bits, e_bases, b_bits), g4) \<Rightarrow>
          (process_results F a_bits a_bases b_bits b_bases e_bits e_bases e_int inc_eve, g4)))))"

definition quantum_simulation ::
  "float_arith \<Rightarrow> 'g rng \<Rightarrow> int \<Rightarrow> bool \<Rightarrow> real \<Rightarrow> real \<Rightarrow> 'g \<Rightarrow> (error + BB84Result) \<times> 'g" where
  "quantum_simulation F R num_qubits inc_eve eve_rate noise_level g =
     run_simulation F R (quantum_photon R inc_eve eve_rate) num_qubits inc_eve g"

definition classical_simulation ::
  "float_arith \<Rightarrow> 'g rng \<Rightarrow> int \<Rightarrow> bool \<Rightarrow> real \<Rightarrow> real \<Rightarrow> 'g \<Rightarrow> (error + BB84Result) \<times> 'g" where
  "classical_simulation F R num_qubits inc_eve eve_rate noise_level g =
     run_simulation F R (classical_photon R inc_eve eve_rate noise_level) num_qubits inc_eve g"

text \<open>\<open>params.get(key, default)\<close> on a key that may be absent.\<close>

definition get_default :: "'a option \<Rightarrow> 'a \<Rightarrow> 'a" where
  "get_default v d = (case v of Some x \<Rightarrow> x | None \<Rightarrow> d)"

text \<open>\<open>eve_rate = params.get('eveInterceptionRate', 30) / 100\<close>.\<close>

definition eve_rate_of :: "float_arith \<Rightarrow> params \<Rightarrow> error + real" where
  "eve_rate_of F ps = div_100 F (get_default (eveInterceptionRate ps) (IntNum 30))"

text \<open>
  \<open>simulate\<close>. \<open>QISKIT_AVAILABLE\<close> is the module flag set by the import at start-up. The
  division for \<open>eve_rate\<close> is made before anything is drawn, whether or not Eve is
  included. The default noise level is the float literal \<open>0.01\<close>.
\<close>

definition simulate ::
  "float_arith \<Rightarrow> 'g rng \<Rightarrow> bool \<Rightarrow> params \<Rightarrow> 'g \<Rightarrow> (error + BB84Result) \<times> 'g" where
  "simulate F R QISKIT_AVAILABLE ps g =
     (let num_qubits = get_default (numQubits ps) 20;
          inc_eve = get_default (includeEve ps) False
      in
        case eve_rate_of F ps of
          Inl e \<Rightarrow> (Inl e, g)
        | Inr eve_rate \<Rightarrow>
            (let noise_level = get_default (noiseLevel ps) (double_of F 0.01)
             in
               if QISKIT_AVAILABLE \<and> num_qubits \<le> 50
               then quantum_simulation F R num_qubits inc_eve eve_rate noise_level g
               else classical_simulation F R num_qubits inc_eve eve_rate noise_level g))"

subsection \<open>A concrete entropy source for running the model\<close>

text \<open>
  A deterministic source whose state counts the draws made so far: a bit drawn at count
  \<open>g\<close> is \<open>g mod 2\<close>, a basis is \<open>Z\<close> at every third count and \<open>X\<close> otherwise, and
  \<open>random.random()\<close> cycles through \<open>0, 1/4, 1/2, 3/4\<close>.
\<close>

definition counter_rng :: "nat rng" where
  "counter_rng =
     \<lparr> randint01 = (\<lambda>g. (int (g mod 2), Suc g)),
       choice_basis = (\<lambda>g. (if g mod 3 = 0 then Z else X, Suc g)),
       random_unit = (\<lambda>g. (real (g mod 4) / 4, Suc g)),
       run_shot = (\<lambda>qc g. (int (g mod 2), Suc g)) \<rparr>"

text \<open>The contract of \<open>random.random()\<close>: a value in the half-open interval from 0 to 1.\<close>

definition unit_interval_rng :: "'g rng \<Rightarrow> bool" where
  "unit_interval_rng R \<longleftrightarrow> (\<forall>g. 0 \<le> fst (random_unit R g) \<and> fst (random_unit R g) < 1)"

text \<open>
  Rounding is monotone, and 0 and 1 are doubles: what the comparison of a draw with a rate
  outside its nominal range relies on.
\<close>

definition monotone_rounding :: "float_arith \<Rightarrow> bool" where
  "monotone_rounding F \<longleftrightarrow>
     (\<forall>x y. x \<le> y \<longrightarrow> nearest F x \<le> nearest F y) \<and> nearest F 0 = 0 \<and> nearest F 1 = 1"

text \<open>
  An arithmetic that rounds nothing, for running the model on examples. The quotients that
  decide the runs below (\<open>1/4\<close>, \<open>1/2\<close>, \<open>3/2\<close>) are doubles, which no rounding
  changes.
\<close>

definition exact_arith :: float_arith where
  "exact_arith = \<lparr> nearest = (\<lambda>x. x) \<rparr>"

subsection \<open>Concrete runs\<close>

text \<open>Four photons without Eve, noise level 1/4, on the counting source started at 0.\<close>

definition example_params :: params where
  "example_params =
     \<lparr> numQubits = Some 4, includeEve = Some False,
       eveInterceptionRate = Some (IntNum 50), noiseLevel = Some (1 / 4) \<rparr>"

definition example_result :: BB84Result where
  "example_result =
     \<lparr> alice_bits = [0, 1, 0, 1], alice_bases = [X, X, Z, X],
       bob_bits = [1, 1, 0, 1], bob_bases = [X, Z, X, X],
       eve_bits = [None, None, None, None], eve_bases = [None, None, None, None],
       eve_interceptions = [False, False, False, False],
       matching_bases = [True, False, False, True], final_key = [1],
       error_rate = 1 / 2, include_eve = False,
       transmission_efficiency = 1 / 4, quantum_fidelity = 1 / 2 \<rparr>"

text \<open>One photon on the counting source started at 1: the two bases differ.\<close>

definition unmatched_params :: params where
  "unmatched_params =
     \<lparr> numQubits = Some 1, includeEve = None, eveInterceptionRate = None, noiseLevel = None \<rparr>"

definition unmatched_result :: BB84Result where
  "unmatched_result =
     \<lparr> alice_bits = [1], alice_bases = [X], bob_bits = [0], bob_bases = [Z],
       eve_bits = [None], eve_bases = [None], eve_interceptions = [False],
       matching_bases = [False], final_key = [],
       error_rate = 0, include_eve = False,
       transmission_efficiency = 0, quantum_fidelity = 0 \<rparr>"

text \<open>The four photons again, on the probabilistic backend without Eve and without noise.\<close>

definition quiet_result :: BB84Result where
  "quiet_result =
     example_result\<lparr> bob_bits := [0, 1, 0, 1], final_key := [0, 1], error_rate := 0,
                     transmission_efficiency := 1 / 2, quantum_fidelity := 1 \<rparr>"

text \<open>Four photons with Eve, an interception rate of 150 percent and a noise level of 2.\<close>

definition out_of_range_params :: params where
  "out_of_range_params =
     \<lparr> numQubits = Some 4, includeEve = Some True,
       eveInterceptionRate = Some (IntNum 150), noiseLevel = Some 2 \<rparr>"

definition out_of_range_result :: BB84Result where
  "out_of_range_result =
     \<lparr> alice_bits = [0, 1, 0, 1], alice_bases = [X, X, Z, X],
       bob_bits = [1, 1, 1, 0], bob_bases = [X, Z, X, X],
       eve_bits = [Some 0, Some 1, Some 0, Some 1],
       eve_bases = [Some X, Some X, Some X, Some X],
       eve_interceptions = [True, True, True, True],
       matching_bases = [True, False, False, True], final_key = [],
       error_rate = 1, include_eve = True,
       transmission_efficiency = 0, quantum_fidelity = 0 \<rparr>"

section \<open>The quantities the specification names\<close>

text \<open>
  \<open>siftedCount\<close>: the number of records whose \<open>matchingBases\<close> entry is true.
\<close>

definition sifted_count :: "BB84Result \<Rightarrow> nat" where
  "sifted_count r = length (filter (\<lambda>m. m) (matching_bases r))"

text \<open>
  \<open>errorCount\<close>: the number of sifted records where Alice's and Bob's bits differ.
\<close>

definition error_count :: "BB84Result \<Rightarrow> nat" where
  "error_count r =
     length (filter (\<lambda>i. matching_bases r ! i \<and> alice_bits r ! i \<noteq> bob_bits r ! i)
               [0..<length (matching_bases r)])"

text \<open>
  The key the specification describes: Alice's bits at the sifted records where the two
  bits agree, in order.
\<close>

definition sifted_key :: "BB84Result \<Rightarrow> int list" where
  "sifted_key r =
     map (\<lambda>i. alice_bits r ! i)
       (filter (\<lambda>i. matching_bases r ! i \<and> alice_bits r ! i = bob_bits r ! i)
          [0..<length (matching_bases r)])"

text \<open>Clamping to an interval, and the parameters with both rates clamped as the specification asks.\<close>

definition clamp :: "real \<Rightarrow> real \<Rightarrow> real \<Rightarrow> real" where
  "clamp lo hi x = max lo (min hi x)"

fun clamp_rate :: "number \<Rightarrow> number" where
  "clamp_rate (IntNum n) = IntNum (max 0 (min 100 n))"
| "clamp_rate (FloatNum x) = FloatNum (clamp 0 100 x)"

definition clamped :: "params \<Rightarrow> params" where
  "clamped ps =
     ps\<lparr> eveInterceptionRate := map_option clamp_rate (eveInterceptionRate ps),
         noiseLevel := map_option (clamp 0 1) (noiseLevel ps) \<rparr>"

section \<open>Auxiliary lemmas\<close>

subsection \<open>Comprehensions and loops of result processing\<close>

lemma draws_length: "length (fst (draws d n g)) = n"
proof (induction n arbitrary: g)
  case 0
  then show ?case by simp
next
  case (Suc n)
  obtain x g1 where d: "d g = (x, g1)" by (cases "d g")
  obtain xs g2 where r: "draws d n g1 = (xs, g2)" by (cases "draws d n g1")
  from Suc.IH [of g1] r have "length xs = n" by simp
  then show ?case by (simp add: d r)
qed

lemma enumerate_as_map: "enumerate 0 ms = map (\<lambda>i. (i, ms ! i)) [0..<length ms]"
  by (rule nth_equalityI) (simp_all add: nth_enumerate_eq)

lemma key_loop_run:
  assumes "\<forall>p\<in>set xs. snd p \<longrightarrow> fst p < length a \<and> fst p < length b"
  shows "key_loop a b xs (fk, mc, ec) =
           Inr (fk @ map (\<lambda>p. a ! fst p) (filter (\<lambda>p. snd p \<and> a ! fst p = b ! fst p) xs),
                mc + length (filter snd xs),
                ec + length (filter (\<lambda>p. snd p \<and> a ! fst p \<noteq> b ! fst p) xs))"
  using assms
proof (induction xs arbitrary: fk mc ec)
  case Nil
  then show ?case by simp
next
  case (Cons p xs)
  obtain i m where p: "p = (i, m)" by (cases p)
  from Cons.prems have rest: "\<forall>p\<in>set xs. snd p \<longrightarrow> fst p < length a \<and> fst p < length b"
    by simp
  from Cons.prems p have here: "m \<longrightarrow> i < length a \<and> i < length b" by simp
  show ?case
    using here by (simp add: p Cons.IH [OF rest] nth_py_def)
qed

lemma correct_measurements_run:
  assumes "\<forall>p\<in>set xs. snd p \<longrightarrow> fst p < length a \<and> fst p < length b"
  shows "correct_measurements a b xs =
           Inr (length (filter (\<lambda>p. snd p \<and> a ! fst p = b ! fst p) xs))"
  using assms
proof (induction xs)
  case Nil
  then show ?case by simp
next
  case (Cons p xs)
  obtain i m where p: "p = (i, m)" by (cases p)
  from Cons.prems have rest: "\<forall>p\<in>set xs. snd p \<longrightarrow> fst p < length a \<and> fst p < length b"
    by simp
  from Cons.prems p have here: "m \<longrightarrow> i < length a \<and> i < length b" by simp
  show ?case
    using here by (simp add: p Cons.IH [OF rest] nth_py_def)
qed

lemma sum_bools: "(\<Sum>x\<leftarrow>xs. if P x then 1 else 0 :: nat) = length (filter P xs)"
  by (induction xs) auto

lemma filter_split_count:
  "length (filter P xs) = length (filter (\<lambda>x. P x \<and> Q x) xs) + length (filter (\<lambda>x. P x \<and> \<not> Q x) xs)"
  by (induction xs) auto


lemma matching_as_map:
  assumes "length ab = n" "length bb = n"
  shows "map (\<lambda>(x, y). x = y) (zip ab bb) = map (\<lambda>i. ab ! i = bb ! i) [0..<n]"
  using assms by (intro nth_equalityI) simp_all

lemma enumerate_matching:
  "enumerate 0 (map f [0..<n]) = map (\<lambda>i. (i, f i)) [0..<n]"
  by (rule nth_equalityI) (simp_all add: nth_enumerate_eq)

subsection \<open>Division\<close>

lemma one_below_overflow_bound: "1 < overflow_bound"
  unfolding overflow_bound_def by simp

lemma double_of_0: "double_of F 0 = 0"
  by (simp add: double_of_def)

lemma double_of_1: "double_of F 1 = 1"
  by (simp add: double_of_def)

lemma int_truediv_zero: "int_truediv F a 0 = Inl ZeroDivisionError"
  by (simp add: int_truediv_def)

lemma int_truediv_counts:
  assumes "a \<le> b" "0 < b"
  shows "int_truediv F (int a) (int b) = Inr (double_of F (real a / real b))"
proof -
  have "real a / real b \<le> 1" using assms by simp
  moreover have "0 \<le> real a / real b" by simp
  ultimately have "\<bar>real a / real b\<bar> < overflow_bound"
    using one_below_overflow_bound by linarith
  then show ?thesis using assms by (simp add: int_truediv_def)
qed

lemma int_truediv_none: "0 < b \<Longrightarrow> int_truediv F 0 (int b) = Inr 0"
  using int_truediv_counts [of 0 b F] by (simp add: double_of_0)

lemma int_truediv_all: "0 < b \<Longrightarrow> int_truediv F (int b) (int b) = Inr 1"
  using int_truediv_counts [of b b F] by (simp add: double_of_1)

subsection \<open>Result processing\<close>

lemma process_results_spec:
  assumes la: "length a = n" and lab: "length ab = n" and lb: "length b = n"
    and lbb: "length bb = n" and pos: "0 < n"
  shows "process_results F a ab b bb eb ebs ei inc =
           Inr \<lparr> alice_bits = a, alice_bases = ab, bob_bits = b, bob_bases = bb,
                 eve_bits = eb, eve_bases = ebs, eve_interceptions = ei,
                 matching_bases = map (\<lambda>i. ab ! i = bb ! i) [0..<n],
                 final_key = map (\<lambda>i. a ! i) (filter (\<lambda>i. ab ! i = bb ! i \<and> a ! i = b ! i) [0..<n]),
                 error_rate =
                   (if length (filter (\<lambda>i. ab ! i = bb ! i) [0..<n]) = 0 then 0
                    else double_of F
                      (real (length (filter (\<lambda>i. ab ! i = bb ! i \<and> a ! i \<noteq> b ! i) [0..<n]))
                         / real (length (filter (\<lambda>i. ab ! i = bb ! i) [0..<n])))),
                 include_eve = inc,
                 transmission_efficiency =
                   double_of F
                     (real (length (filter (\<lambda>i. ab ! i = bb ! i \<and> a ! i = b ! i) [0..<n])) / real n),
                 quantum_fidelity =
                   (if length (filter (\<lambda>i. ab ! i = bb ! i) [0..<n]) = 0 then 0
                    else double_of F
                      (real (length (filter (\<lambda>i. ab ! i = bb ! i \<and> a ! i = b ! i) [0..<n]))
                         / real (length (filter (\<lambda>i. ab ! i = bb ! i) [0..<n])))) \<rparr>"
proof -
  let ?f = "\<lambda>i. ab ! i = bb ! i"
  let ?en = "map (\<lambda>i. (i, ?f i)) [0..<n]"
  let ?S = "length (filter ?f [0..<n])"
  let ?E = "length (filter (\<lambda>i. ?f i \<and> a ! i \<noteq> b ! i) [0..<n])"
  let ?K = "length (filter (\<lambda>i. ?f i \<and> a ! i = b ! i) [0..<n])"
  have mb: "map (\<lambda>(x, y). x = y) (zip ab bb) = map ?f [0..<n]"
    by (rule matching_as_map [OF lab lbb])
  have en: "enumerate 0 (map ?f [0..<n]) = ?en"
    by (rule enumerate_matching)
  have inrange: "\<forall>p\<in>set ?en. snd p \<longrightarrow> fst p < length a \<and> fst p < length b"
    using la lb by auto
  have kl: "key_loop a b ?en ([], 0, 0) = Inr (map (\<lambda>i. a ! i) (filter (\<lambda>i. ?f i \<and> a ! i = b ! i) [0..<n]), ?S, ?E)"
    by (simp add: key_loop_run [OF inrange] filter_map comp_def)
  have cm: "correct_measurements a b ?en = Inr ?K"
    by (simp add: correct_measurements_run [OF inrange] filter_map comp_def)
  have sb: "(\<Sum>m\<leftarrow>map ?f [0..<n]. if m then 1 else 0 :: nat) = ?S"
    by (simp add: comp_def sum_bools)
  have split: "?S = ?K + ?E" by (rule filter_split_count)
  have kn: "?K \<le> n" using length_filter_le [of "\<lambda>i. ?f i \<and> a ! i = b ! i" "[0..<n]"] by simp
  have dE: "int_truediv F (int ?E) (int ?S) = Inr (double_of F (real ?E / real ?S))" if "0 < ?S"
    by (rule int_truediv_counts [OF _ that]) (simp add: split)
  have dK: "int_truediv F (int ?K) (int ?S) = Inr (double_of F (real ?K / real ?S))" if "0 < ?S"
    by (rule int_truediv_counts [OF _ that]) (simp add: split)
  have dT: "int_truediv F (int ?K) (int n) = Inr (double_of F (real ?K / real n))"
    by (rule int_truediv_counts [OF kn pos])
  have cf: "calculate_fidelity F a b (map ?f [0..<n]) =
      Inr (if ?S = 0 then 0 else double_of F (real ?K / real ?S))"
    unfolding calculate_fidelity_def Let_def sb en cm using dK by simp
  have er: "(if 0 < ?S then int_truediv F (int ?E) (int ?S) else Inr 0)
      = Inr (if ?S = 0 then 0 else double_of F (real ?E / real ?S))"
    using dE by simp
  show ?thesis
    unfolding process_results_def Let_def mb en kl prod.case sum.case er la length_map dT cf
    by simp
qed

lemma process_results_empty:
  "process_results F [] [] b bb eb ebs ei inc = Inl ZeroDivisionError"
  by (simp add: process_results_def enumerate_eq_zip int_truediv_zero)

lemma filter_upt_nth_map:
  "filter (\<lambda>i. map f [0..<n] ! i \<and> P i) [0..<n] = filter (\<lambda>i. f i \<and> P i) [0..<n]"
  by (rule filter_cong) auto

text \<open>What a returned result looks like, in the specification's quantities.\<close>

lemma process_results_facts:
  assumes la: "length a = n" and lab: "length ab = n" and lb: "length b = n"
    and lbb: "length bb = n" and pos: "0 < n"
    and pr: "process_results F a ab b bb eb ebs ei inc = Inr r"
  shows "alice_bits r = a" "alice_bases r = ab" "bob_bits r = b" "bob_bases r = bb"
    "eve_bits r = eb" "eve_bases r = ebs" "eve_interceptions r = ei" "include_eve r = inc"
    "matching_bases r = map (\<lambda>i. ab ! i = bb ! i) [0..<n]"
    "final_key r = sifted_key r"
    "error_rate r =
       (if sifted_count r = 0 then 0
        else double_of F (real (error_count r) / real (sifted_count r)))"
    "transmission_efficiency r = double_of F (real (length (final_key r)) / real n)"
    "quantum_fidelity r =
       (if sifted_count r = 0 then 0
        else double_of F (real (length (final_key r)) / real (sifted_count r)))"
    "length (final_key r) + error_count r = sifted_count r"
proof -
  let ?f = "\<lambda>i. ab ! i = bb ! i"
  note r = pr [unfolded process_results_spec [OF la lab lb lbb pos], simplified, symmetric]
  show f1: "alice_bits r = a" "alice_bases r = ab" "bob_bits r = b" "bob_bases r = bb"
    "eve_bits r = eb" "eve_bases r = ebs" "eve_interceptions r = ei" "include_eve r = inc"
    by (simp_all add: r)
  show mb: "matching_bases r = map ?f [0..<n]" by (simp add: r)
  have sc: "sifted_count r = length (filter ?f [0..<n])"
    by (simp add: sifted_count_def mb filter_map comp_def)
  have ec: "error_count r = length (filter (\<lambda>i. ?f i \<and> a ! i \<noteq> b ! i) [0..<n])"
    by (simp add: error_count_def mb f1 filter_upt_nth_map)
  have sk: "sifted_key r = map (\<lambda>i. a ! i) (filter (\<lambda>i. ?f i \<and> a ! i = b ! i) [0..<n])"
    by (simp add: sifted_key_def mb f1 filter_upt_nth_map)
  show fk: "final_key r = sifted_key r" unfolding sk by (simp add: r)
  have lfk: "length (final_key r) = length (filter (\<lambda>i. ?f i \<and> a ! i = b ! i) [0..<n])"
    unfolding fk sk by simp
  show "error_rate r =
       (if sifted_count r = 0 then 0
        else double_of F (real (error_count r) / real (sifted_count r)))"
    unfolding sc ec by (simp add: r)
  show "transmission_efficiency r = double_of F (real (length (final_key r)) / real n)"
    unfolding lfk by (simp add: r)
  show "quantum_fidelity r =
       (if sifted_count r = 0 then 0
        else double_of F (real (length (final_key r)) / real (sifted_count r)))"
    unfolding sc lfk by (simp add: r)
  show "length (final_key r) + error_count r = sifted_count r"
    unfolding lfk ec sc by (rule filter_split_count [symmetric])
qed

subsection \<open>Photon lists\<close>

lemma photon_loop_lengths:
  "photon_loop body js (ei, eb, es, bs) g = (Inr (ei', eb', es', bs'), g') \<Longrightarrow>
     length ei' = length ei + length js \<and> length eb' = length eb + length js \<and>
     length es' = length es + length js \<and> length bs' = length bs + length js"
proof (induction js arbitrary: ei eb es bs g)
  case Nil
  then show ?case by simp
next
  case (Cons j js)
  from Cons.prems obtain x y z w g1 where
    step: "body j g = (Inr (x, y, z, w), g1)" and
    rest: "photon_loop body js (ei @ [x], eb @ [y], es @ [z], bs @ [w]) g1 = (Inr (ei', eb', es', bs'), g')"
    by (auto split: prod.splits sum.splits)
  from Cons.IH [OF rest] show ?case by simp
qed

lemma photon_loop_ok:
  assumes "\<forall>j\<in>set js. \<forall>g. \<exists>ph g'. body j g = (Inr ph, g')"
  shows "\<exists>tr g'. photon_loop body js acc g = (Inr tr, g')"
  using assms
proof (induction js arbitrary: acc g)
  case Nil
  show ?case by (metis photon_loop.simps(1))
next
  case (Cons j js)
  obtain ei eb es bs where acc: "acc = (ei, eb, es, bs)" by (cases acc) auto
  from Cons.prems obtain x y z w g1 where step: "body j g = (Inr (x, y, z, w), g1)"
    by (metis list.set_intros(1) prod_cases4)
  from Cons.prems have "\<forall>j\<in>set js. \<forall>g. \<exists>ph g'. body j g = (Inr ph, g')" by simp
  from Cons.IH [OF this] show ?case by (simp add: acc step)
qed

lemma photon_loop_cong:
  assumes "\<forall>j\<in>set js. \<forall>g. body j g = body' j g"
  shows "photon_loop body js acc g = photon_loop body' js acc g"
  using assms
proof (induction js arbitrary: acc g)
  case Nil
  then show ?case by simp
next
  case (Cons j js)
  obtain ei eb es bs where acc: "acc = (ei, eb, es, bs)" by (cases acc) auto
  from Cons.prems have here: "body j g = body' j g" by simp
  from Cons.prems have "\<forall>j\<in>set js. \<forall>g. body j g = body' j g" by simp
  from Cons.IH [OF this] show ?case
    by (simp add: acc here split: prod.splits sum.splits)
qed

subsection \<open>The photon loop and its two bodies\<close>

lemma photon_loop_photons:
  "photon_loop body js (ei, eb, es, bs) g = (Inr (ei', eb', es', bs'), g') \<Longrightarrow>
     \<exists>phs. list_all2 (\<lambda>j ph. \<exists>g1 g2. body j g1 = (Inr ph, g2)) js phs \<and>
           ei' = ei @ map fst phs \<and>
           eb' = eb @ map (\<lambda>ph. fst (snd ph)) phs \<and>
           es' = es @ map (\<lambda>ph. fst (snd (snd ph))) phs \<and>
           bs' = bs @ map (\<lambda>ph. snd (snd (snd ph))) phs"
proof (induction js arbitrary: ei eb es bs g)
  case Nil
  then show ?case by simp
next
  case (Cons j js)
  from Cons.prems obtain x y z w g1 where
    step: "body j g = (Inr (x, y, z, w), g1)" and
    rest: "photon_loop body js (ei @ [x], eb @ [y], es @ [z], bs @ [w]) g1 = (Inr (ei', eb', es', bs'), g')"
    by (auto split: prod.splits sum.splits)
  from Cons.IH [OF rest] obtain phs where
    all: "list_all2 (\<lambda>j ph. \<exists>g1 g2. body j g1 = (Inr ph, g2)) js phs" and
    eqs: "ei' = (ei @ [x]) @ map fst phs"
         "eb' = (eb @ [y]) @ map (\<lambda>ph. fst (snd ph)) phs"
         "es' = (es @ [z]) @ map (\<lambda>ph. fst (snd (snd ph))) phs"
         "bs' = (bs @ [w]) @ map (\<lambda>ph. snd (snd (snd ph))) phs"
    by blast
  have "list_all2 (\<lambda>j ph. \<exists>g1 g2. body j g1 = (Inr ph, g2)) (j # js) ((x, y, z, w) # phs)"
    using all step by auto
  moreover have "ei' = ei @ map fst ((x, y, z, w) # phs)"
    "eb' = eb @ map (\<lambda>ph. fst (snd ph)) ((x, y, z, w) # phs)"
    "es' = es @ map (\<lambda>ph. fst (snd (snd ph))) ((x, y, z, w) # phs)"
    "bs' = bs @ map (\<lambda>ph. snd (snd (snd ph))) ((x, y, z, w) # phs)"
    using eqs by simp_all
  ultimately show ?case by blast
qed

lemma eve_intercepts_draw_cases:
  obtains b g1 where "eve_intercepts_draw R inc er g = (b, g1)"
  by (cases "eve_intercepts_draw R inc er g")

lemma eve_classical_ok:
  assumes "j < length a" "j < length ab"
  shows "\<exists>v g'. eve_classical R ei a ab j g = (Inr v, g')"
  using assms
  by (simp add: eve_classical_def nth_py_def split: prod.splits)

lemma bob_classical_ok:
  assumes "j < length bb"
  shows "\<exists>v g'. bob_classical R nl bb j tb ts g = (Inr v, g')"
  using assms
  by (simp add: bob_classical_def nth_py_def split: prod.splits)

lemma classical_photon_ok:
  assumes "j < length a" "j < length ab" "j < length bb"
  shows "\<exists>ph g'. classical_photon R inc er nl a ab bb j g = (Inr ph, g')"
proof -
  obtain ei g1 where d: "eve_intercepts_draw R inc er g = (ei, g1)"
    by (rule eve_intercepts_draw_cases)
  have "\<exists>v g'. eve_classical R ei a ab j g1 = (Inr v, g')"
    by (rule eve_classical_ok [OF assms(1,2)])
  then obtain v g2 where e: "eve_classical R ei a ab j g1 = (Inr v, g2)" by blast
  obtain x y tb ts where v: "v = (x, y, tb, ts)" by (cases v) auto
  have "\<exists>v g'. bob_classical R nl bb j tb ts g2 = (Inr v, g')"
    by (rule bob_classical_ok [OF assms(3)])
  then obtain w g3 where b: "bob_classical R nl bb j tb ts g2 = (Inr w, g3)" by blast
  show ?thesis by (simp add: classical_photon_def d e v b)
qed

lemma quantum_photon_ok:
  assumes "j < length a" "j < length ab" "j < length bb"
  shows "\<exists>ph g'. quantum_photon R inc er a ab bb j g = (Inr ph, g')"
proof -
  obtain ei g1 where d: "eve_intercepts_draw R inc er g = (ei, g1)"
    by (rule eve_intercepts_draw_cases)
  obtain x y qc g2 where e: "eve_quantum R ei (prepare_circuit (a ! j) (ab ! j)) g1 = ((x, y, qc), g2)"
    by (metis prod_cases3 surj_pair)
  obtain w g3 where b: "run_shot R (measure_in qc (bb ! j)) g2 = (w, g3)"
    by (metis surj_pair)
  show ?thesis using assms by (simp add: quantum_photon_def nth_py_def d e b)
qed

subsection \<open>The simulations\<close>

lemma run_simulation_nonpos:
  "n \<le> 0 \<Longrightarrow> run_simulation F R body n inc g = (Inl ZeroDivisionError, g)"
  by (simp add: run_simulation_def process_results_empty)

lemma run_simulation_cases:
  assumes "run_simulation F R body n inc g = (Inr r, g')"
  obtains a ab bb ei eb es b g1 g2 g3 where
    "draws (randint01 R) (nat n) g = (a, g1)"
    "draws (choice_basis R) (nat n) g1 = (ab, g2)"
    "draws (choice_basis R) (nat n) g2 = (bb, g3)"
    "photon_loop (body a ab bb) [0..<nat n] ([], [], [], []) g3 = (Inr (ei, eb, es, b), g')"
    "process_results F a ab b bb eb es ei inc = Inr r"
  using assms unfolding run_simulation_def
  by (auto split: prod.splits sum.splits)

lemma run_simulation_returns:
  assumes pos: "0 < n"
    and ok: "\<And>a ab bb j g. length a = nat n \<Longrightarrow> length ab = nat n \<Longrightarrow> length bb = nat n
                \<Longrightarrow> j < nat n \<Longrightarrow> \<exists>ph g'. body a ab bb j g = (Inr ph, g')"
  shows "\<exists>r g'. run_simulation F R body n inc g = (Inr r, g')"
proof -
  obtain a g1 where d1: "draws (randint01 R) (nat n) g = (a, g1)" by (cases "draws (randint01 R) (nat n) g")
  obtain ab g2 where d2: "draws (choice_basis R) (nat n) g1 = (ab, g2)" by (cases "draws (choice_basis R) (nat n) g1")
  obtain bb g3 where d3: "draws (choice_basis R) (nat n) g2 = (bb, g3)" by (cases "draws (choice_basis R) (nat n) g2")
  have la: "length a = nat n" using draws_length [of "randint01 R" "nat n" g] d1 by simp
  have lab: "length ab = nat n" using draws_length [of "choice_basis R" "nat n" g1] d2 by simp
  have lbb: "length bb = nat n" using draws_length [of "choice_basis R" "nat n" g2] d3 by simp
  have "\<forall>j\<in>set [0..<nat n]. \<forall>g. \<exists>ph g'. body a ab bb j g = (Inr ph, g')"
    using ok [OF la lab lbb] by simp
  from photon_loop_ok [OF this] obtain tr g4 where
    pl: "photon_loop (body a ab bb) [0..<nat n] ([], [], [], []) g3 = (Inr tr, g4)" by blast
  obtain ei eb es b where tr: "tr = (ei, eb, es, b)" by (cases tr) auto
  from photon_loop_lengths [OF pl [unfolded tr]] have lb: "length b = nat n" by simp
  have npos: "0 < nat n" using pos by simp
  show ?thesis
    unfolding run_simulation_def
    by (simp add: d1 d2 d3 pl tr process_results_spec [OF la lab lb lbb npos])
qed

lemma run_simulation_facts:
  assumes run: "run_simulation F R body n inc g = (Inr r, g')"
  shows "0 < n"
    "length (alice_bits r) = nat n" "length (alice_bases r) = nat n"
    "length (bob_bits r) = nat n" "length (bob_bases r) = nat n"
    "length (eve_bits r) = nat n" "length (eve_bases r) = nat n"
    "length (eve_interceptions r) = nat n" "length (matching_bases r) = nat n"
    "include_eve r = inc"
    "matching_bases r = map (\<lambda>i. alice_bases r ! i = bob_bases r ! i) [0..<nat n]"
    "final_key r = sifted_key r"
    "error_rate r =
       (if sifted_count r = 0 then 0
        else double_of F (real (error_count r) / real (sifted_count r)))"
    "transmission_efficiency r = double_of F (real (length (final_key r)) / real (nat n))"
    "quantum_fidelity r =
       (if sifted_count r = 0 then 0
        else double_of F (real (length (final_key r)) / real (sifted_count r)))"
    "length (final_key r) + error_count r = sifted_count r"
    "\<exists>phs. list_all2 (\<lambda>j ph. \<exists>g1 g2. body (alice_bits r) (alice_bases r) (bob_bases r) j g1 = (Inr ph, g2))
              [0..<nat n] phs \<and>
           eve_interceptions r = map fst phs \<and>
           eve_bits r = map (\<lambda>ph. fst (snd ph)) phs \<and>
           eve_bases r = map (\<lambda>ph. fst (snd (snd ph))) phs \<and>
           bob_bits r = map (\<lambda>ph. snd (snd (snd ph))) phs"
proof -
  show pos: "0 < n"
  proof (rule ccontr)
    assume "\<not> 0 < n"
    then have "n \<le> 0" by simp
    from run_simulation_nonpos [OF this, of F R body inc g] run show False by simp
  qed
  then have npos: "0 < nat n" by simp
  from run obtain a ab bb ei eb es b g1 g2 g3 where
    d1: "draws (randint01 R) (nat n) g = (a, g1)" and
    d2: "draws (choice_basis R) (nat n) g1 = (ab, g2)" and
    d3: "draws (choice_basis R) (nat n) g2 = (bb, g3)" and
    pl: "photon_loop (body a ab bb) [0..<nat n] ([], [], [], []) g3 = (Inr (ei, eb, es, b), g')" and
    pr: "process_results F a ab b bb eb es ei inc = Inr r"
    by (rule run_simulation_cases)
  have la: "length a = nat n" using draws_length [of "randint01 R" "nat n" g] d1 by simp
  have lab: "length ab = nat n" using draws_length [of "choice_basis R" "nat n" g1] d2 by simp
  have lbb: "length bb = nat n" using draws_length [of "choice_basis R" "nat n" g2] d3 by simp
  from photon_loop_lengths [OF pl] have
    lei: "length ei = nat n" and leb: "length eb = nat n" and
    les: "length es = nat n" and lb: "length b = nat n" by simp_all
  note facts = process_results_facts [OF la lab lb lbb npos pr]
  show "length (alice_bits r) = nat n" "length (alice_bases r) = nat n"
    "length (bob_bits r) = nat n" "length (bob_bases r) = nat n"
    "length (eve_bits r) = nat n" "length (eve_bases r) = nat n"
    "length (eve_interceptions r) = nat n"
    by (simp_all add: facts(1-7) la lab lb lbb lei leb les)
  show "length (matching_bases r) = nat n" by (simp add: facts(9))
  show "include_eve r = inc" by (rule facts(8))
  show "matching_bases r = map (\<lambda>i. alice_bases r ! i = bob_bases r ! i) [0..<nat n]"
    by (simp add: facts(9) facts(2) facts(4))
  show "final_key r = sifted_key r" by (rule facts(10))
  show "error_rate r =
       (if sifted_count r = 0 then 0
        else double_of F (real (error_count r) / real (sifted_count r)))"
    by (rule facts(11))
  show "transmission_efficiency r = double_of F (real (length (final_key r)) / real (nat n))"
    by (rule facts(12))
  show "quantum_fidelity r =
       (if sifted_count r = 0 then 0
        else double_of F (real (length (final_key r)) / real (sifted_count r)))"
    by (rule facts(13))
  show "length (final_key r) + error_count r = sifted_count r" by (rule facts(14))
  from photon_loop_photons [OF pl] show "\<exists>phs. list_all2 (\<lambda>j ph. \<exists>g1 g2. body (alice_bits r) (alice_bases r) (bob_bases r) j g1 = (Inr ph, g2))
              [0..<nat n] phs \<and>
           eve_interceptions r = map fst phs \<and>
           eve_bits r = map (\<lambda>ph. fst (snd ph)) phs \<and>
           eve_bases r = map (\<lambda>ph. fst (snd (snd ph))) phs \<and>
           bob_bits r = map (\<lambda>ph. snd (snd (snd ph))) phs"
    by (simp add: facts(1-7))
qed

text \<open>The loop body \<open>simulate\<close> selects.\<close>

text \<open>The loop body \<open>simulate\<close> selects.\<close>

lemma simulate_run:
  assumes "eve_rate_of F ps = Inr er"
  shows "simulate F R q ps g =
     run_simulation F R
       (if q \<and> get_default (numQubits ps) 20 \<le> 50
        then quantum_photon R (get_default (includeEve ps) False) er
        else classical_photon R (get_default (includeEve ps) False) er
               (get_default (noiseLevel ps) (double_of F 0.01)))
       (get_default (numQubits ps) 20) (get_default (includeEve ps) False) g"
  using assms
  by (simp add: simulate_def quantum_simulation_def classical_simulation_def Let_def)

lemma simulate_overflow:
  assumes "eve_rate_of F ps = Inl e"
  shows "simulate F R q ps g = (Inl e, g)"
  using assms by (simp add: simulate_def Let_def)

lemma eve_rate_of_error:
  assumes "eve_rate_of F ps = Inl e"
  shows "e = OverflowError"
proof (cases "get_default (eveInterceptionRate ps) (IntNum 30)")
  case (IntNum a)
  with assms show ?thesis
    by (simp add: eve_rate_of_def int_truediv_def split: if_splits)
next
  case (FloatNum x)
  with assms show ?thesis by (simp add: eve_rate_of_def)
qed

lemma simulate_returns:
  assumes "1 \<le> get_default (numQubits ps) 20" and rate: "eve_rate_of F ps = Inr er"
  shows "\<exists>r g'. simulate F R q ps g = (Inr r, g')"
proof -
  from assms have pos: "0 < get_default (numQubits ps) 20" by simp
  show ?thesis
  proof (cases "q \<and> get_default (numQubits ps) 20 \<le> 50")
    case True
    show ?thesis
      unfolding simulate_run [OF rate] if_P [OF True]
      by (rule run_simulation_returns [OF pos]) (rule quantum_photon_ok; simp)
  next
    case False
    show ?thesis
      unfolding simulate_run [OF rate] if_not_P [OF False]
      by (rule run_simulation_returns [OF pos]) (rule classical_photon_ok; simp)
  qed
qed

lemma simulate_nonpos:
  assumes "get_default (numQubits ps) 20 \<le> 0" and rate: "eve_rate_of F ps = Inr er"
  shows "simulate F R q ps g = (Inl ZeroDivisionError, g)"
  unfolding simulate_run [OF rate] by (rule run_simulation_nonpos [OF assms(1)])

lemma simulate_result_run:
  assumes "simulate F R q ps g = (Inr r, g')"
  obtains er where "eve_rate_of F ps = Inr er"
    "run_simulation F R
       (if q \<and> get_default (numQubits ps) 20 \<le> 50
        then quantum_photon R (get_default (includeEve ps) False) er
        else classical_photon R (get_default (includeEve ps) False) er
               (get_default (noiseLevel ps) (double_of F 0.01)))
       (get_default (numQubits ps) 20) (get_default (includeEve ps) False) g
     = (Inr r, g')"
proof (cases "eve_rate_of F ps")
  case (Inl e)
  from simulate_overflow [OF Inl, of R q g] assms show ?thesis by simp
next
  case (Inr er)
  from assms [unfolded simulate_run [OF Inr]] Inr that show ?thesis by blast
qed

subsection \<open>Concrete runs of the model\<close>

lemma run_simulationI:
  assumes "draws (randint01 R) (nat n) g = (a, g1)"
    and "draws (choice_basis R) (nat n) g1 = (ab, g2)"
    and "draws (choice_basis R) (nat n) g2 = (bb, g3)"
    and "photon_loop (body a ab bb) [0..<nat n] ([], [], [], []) g3 = (Inr (ei, eb, es, b), g4)"
    and "process_results F a ab b bb eb es ei inc = Inr r"
  shows "run_simulation F R body n inc g = (Inr r, g4)"
  by (simp add: run_simulation_def assms)

lemma exact_truediv:
  "int_truediv exact_arith 50 100 = Inr (1 / 2)"
  "int_truediv exact_arith 30 100 = Inr (3 / 10)"
  "int_truediv exact_arith 150 100 = Inr (3 / 2)"
  by (simp_all add: int_truediv_def overflow_bound_def double_of_def exact_arith_def)

lemma example_process:
  "process_results exact_arith [0, 1, 0, 1] [X, X, Z, X] [1, 1, 0, 1] [X, Z, X, X]
     [None, None, None, None] [None, None, None, None] [False, False, False, False] False
   = Inr example_result"
  by (simp add: process_results_def calculate_fidelity_def Let_def nth_py_def int_truediv_def
        overflow_bound_def double_of_def exact_arith_def example_result_def)

lemma example_run:
  "simulate exact_arith counter_rng False example_params 0 = (Inr example_result, 16)"
proof -
  have rate: "eve_rate_of exact_arith example_params = Inr (1 / 2)"
    by (simp add: eve_rate_of_def example_params_def get_default_def exact_truediv)
  have d1: "draws (randint01 counter_rng) (nat 4) 0 = ([0, 1, 0, 1], 4)" by code_simp
  have d2: "draws (choice_basis counter_rng) (nat 4) 4 = ([X, X, Z, X], 8)" by code_simp
  have d3: "draws (choice_basis counter_rng) (nat 4) 8 = ([X, Z, X, X], 12)" by code_simp
  have pl: "photon_loop (classical_photon counter_rng False (1 / 2) (1 / 4)
                [0, 1, 0, 1] [X, X, Z, X] [X, Z, X, X]) [0..<nat 4] ([], [], [], []) 12
      = (Inr ([False, False, False, False], [None, None, None, None],
              [None, None, None, None], [1, 1, 0, 1]), 16)"
    by code_simp
  have run: "run_simulation exact_arith counter_rng (classical_photon counter_rng False (1 / 2) (1 / 4))
          4 False 0 = (Inr example_result, 16)"
    by (rule run_simulationI [where body = "classical_photon counter_rng False (1 / 2) (1 / 4)", OF d1 d2 d3 pl example_process])
  show ?thesis
    unfolding simulate_run [OF rate] using run by (simp add: example_params_def get_default_def)
qed

lemma unmatched_process:
  "process_results exact_arith [1] [X] [0] [Z] [None] [None] [False] False = Inr unmatched_result"
  by (simp add: process_results_def calculate_fidelity_def Let_def nth_py_def int_truediv_def
        overflow_bound_def double_of_def exact_arith_def unmatched_result_def)

lemma unmatched_run:
  "simulate exact_arith counter_rng False unmatched_params 1 = (Inr unmatched_result, 5)"
proof -
  have rate: "eve_rate_of exact_arith unmatched_params = Inr (3 / 10)"
    by (simp add: eve_rate_of_def unmatched_params_def get_default_def exact_truediv)
  have d1: "draws (randint01 counter_rng) (nat 1) 1 = ([1], 2)" by code_simp
  have d2: "draws (choice_basis counter_rng) (nat 1) 2 = ([X], 3)" by code_simp
  have d3: "draws (choice_basis counter_rng) (nat 1) 3 = ([Z], 4)" by code_simp
  have pl: "photon_loop (classical_photon counter_rng False (3 / 10) (double_of exact_arith 0.01)
                [1] [X] [Z]) [0..<nat 1] ([], [], [], []) 4
      = (Inr ([False], [None], [None], [0]), 5)"
    by code_simp
  have run: "run_simulation exact_arith counter_rng
          (classical_photon counter_rng False (3 / 10) (double_of exact_arith 0.01)) 1 False 1
        = (Inr unmatched_result, 5)"
    by (rule run_simulationI [where body = "classical_photon counter_rng False (3 / 10) (double_of exact_arith 0.01)",
          OF d1 d2 d3 pl unmatched_process])
  show ?thesis
    unfolding simulate_run [OF rate] using run by (simp add: unmatched_params_def get_default_def)
qed

lemma quiet_process:
  "process_results exact_arith [0, 1, 0, 1] [X, X, Z, X] [0, 1, 0, 1] [X, Z, X, X]
     [None, None, None, None] [None, None, None, None] [False, False, False, False] False
   = Inr quiet_result"
  by (simp add: process_results_def calculate_fidelity_def Let_def nth_py_def int_truediv_def
        overflow_bound_def double_of_def exact_arith_def quiet_result_def example_result_def)

lemma quiet_run:
  "classical_simulation exact_arith counter_rng 4 False (1 / 2) 0 0 = (Inr quiet_result, 16)"
proof -
  have d1: "draws (randint01 counter_rng) (nat 4) 0 = ([0, 1, 0, 1], 4)" by code_simp
  have d2: "draws (choice_basis counter_rng) (nat 4) 4 = ([X, X, Z, X], 8)" by code_simp
  have d3: "draws (choice_basis counter_rng) (nat 4) 8 = ([X, Z, X, X], 12)" by code_simp
  have pl: "photon_loop (classical_photon counter_rng False (1 / 2) 0
                [0, 1, 0, 1] [X, X, Z, X] [X, Z, X, X]) [0..<nat 4] ([], [], [], []) 12
      = (Inr ([False, False, False, False], [None, None, None, None],
              [None, None, None, None], [0, 1, 0, 1]), 16)"
    by code_simp
  show ?thesis
    unfolding classical_simulation_def
    by (rule run_simulationI [where body = "classical_photon counter_rng False (1 / 2) 0",
          OF d1 d2 d3 pl quiet_process])
qed

lemma out_of_range_process:
  "process_results exact_arith [0, 1, 0, 1] [X, X, Z, X] [1, 1, 1, 0] [X, Z, X, X]
     [Some 0, Some 1, Some 0, Some 1] [Some X, Some X, Some X, Some X]
     [True, True, True, True] True
   = Inr out_of_range_result"
  by (simp add: process_results_def calculate_fidelity_def Let_def nth_py_def int_truediv_def
        overflow_bound_def double_of_def exact_arith_def out_of_range_result_def)

lemma out_of_range_run:
  "simulate exact_arith counter_rng False out_of_range_params 0 = (Inr out_of_range_result, 25)"
proof -
  have rate: "eve_rate_of exact_arith out_of_range_params = Inr (3 / 2)"
    by (simp add: eve_rate_of_def out_of_range_params_def get_default_def exact_truediv)
  have d1: "draws (randint01 counter_rng) (nat 4) 0 = ([0, 1, 0, 1], 4)" by code_simp
  have d2: "draws (choice_basis counter_rng) (nat 4) 4 = ([X, X, Z, X], 8)" by code_simp
  have d3: "draws (choice_basis counter_rng) (nat 4) 8 = ([X, Z, X, X], 12)" by code_simp
  have pl: "photon_loop (classical_photon counter_rng True (3 / 2) 2
                [0, 1, 0, 1] [X, X, Z, X] [X, Z, X, X]) [0..<nat 4] ([], [], [], []) 12
      = (Inr ([True, True, True, True], [Some 0, Some 1, Some 0, Some 1],
              [Some X, Some X, Some X, Some X], [1, 1, 1, 0]), 25)"
    by code_simp
  have run: "run_simulation exact_arith counter_rng (classical_photon counter_rng True (3 / 2) 2)
          4 True 0 = (Inr out_of_range_result, 25)"
    by (rule run_simulationI [where body = "classical_photon counter_rng True (3 / 2) 2",
          OF d1 d2 d3 pl out_of_range_process])
  show ?thesis
    unfolding simulate_run [OF rate] using run
    by (simp add: out_of_range_params_def get_default_def)
qed

lemma counter_rng_unit_interval: "unit_interval_rng counter_rng"
proof -
  have "real (g mod 4) / 4 < 1" for g :: nat
  proof -
    have "g mod 4 < 4" by simp
    then have "real (g mod 4) < 4" by (metis of_nat_less_iff of_nat_numeral)
    then show ?thesis by simp
  qed
  then show ?thesis by (simp add: unit_interval_rng_def counter_rng_def)
qed

lemma exact_arith_monotone: "monotone_rounding exact_arith"
  by (simp add: monotone_rounding_def exact_arith_def)

subsection \<open>Without Eve\<close>

lemma eve_intercepts_draw_no_eve: "eve_intercepts_draw R False er g = (False, g)"
  by (simp add: eve_intercepts_draw_def)

lemma classical_photon_no_eve_rate:
  "classical_photon R False er nl = classical_photon R False er' nl"
  by (intro ext) (simp add: classical_photon_def eve_intercepts_draw_no_eve)

lemma quantum_photon_no_eve_rate:
  "quantum_photon R False er = quantum_photon R False er'"
  unfolding quantum_photon_def eve_intercepts_draw_no_eve by (rule refl)

lemma eve_classical_no_eve:
  assumes "eve_classical R False a ab j g = (Inr (x, y, tb, ts), g2)"
  shows "x = None \<and> y = None \<and> tb = a ! j \<and> ts = ab ! j \<and> g2 = g \<and> j < length a \<and> j < length ab"
  using assms by (simp add: eve_classical_def nth_py_def split: if_splits)

lemma classical_photon_no_eve_out:
  assumes "classical_photon R False er nl a ab bb j g = (Inr ph, g')"
  shows "fst ph = False \<and> fst (snd ph) = None \<and> fst (snd (snd ph)) = None"
proof -
  obtain ei x y w where ph: "ph = (ei, x, y, w)" by (cases ph) auto
  from assms [unfolded ph classical_photon_def eve_intercepts_draw_no_eve, simplified]
  obtain x' y' tb ts g2 where
    e: "eve_classical R False a ab j g = (Inr (x', y', tb, ts), g2)" and
    rest: "ei = False \<and> x = x' \<and> y = y'"
    by (auto split: prod.splits sum.splits)
  from eve_classical_no_eve [OF e] rest show ?thesis by (simp add: ph)
qed

lemma quantum_photon_no_eve_out:
  assumes "quantum_photon R False er a ab bb j g = (Inr ph, g')"
  shows "fst ph = False \<and> fst (snd ph) = None \<and> fst (snd (snd ph)) = None"
  using assms
  by (auto simp: quantum_photon_def eve_intercepts_draw_no_eve eve_quantum_def
        split: sum.splits prod.splits)

lemma map_const_of_list_all2:
  assumes "list_all2 Q js phs" and "\<And>j ph. Q j ph \<Longrightarrow> f ph = c"
  shows "map f phs = replicate (length js) c"
  using assms by (induction js phs rule: list_all2_induct) simp_all

lemma simulate_eve_rate_no_eve:
  assumes ne: "\<not> get_default (includeEve ps) False"
    and r1: "eve_rate_of F (ps\<lparr>eveInterceptionRate := x\<rparr>) = Inr er1"
    and r2: "eve_rate_of F ps = Inr er2"
  shows "simulate F R q (ps\<lparr>eveInterceptionRate := x\<rparr>) g = simulate F R q ps g"
proof -
  from ne have inc: "get_default (includeEve ps) False = False" by simp
  have c: "classical_photon R False er1 nl = classical_photon R False er2 nl" for nl
    by (rule classical_photon_no_eve_rate)
  have qn: "quantum_photon R False er1 = quantum_photon R False er2"
    by (rule quantum_photon_no_eve_rate)
  show ?thesis
    unfolding simulate_run [OF r1] simulate_run [OF r2] by (simp add: inc c qn)
qed

lemma no_eve_tracks:
  assumes run: "simulate F R q ps g = (Inr r, g')" and ne: "\<not> get_default (includeEve ps) False"
  shows "eve_interceptions r = replicate (length (alice_bits r)) False"
    "eve_bits r = replicate (length (alice_bits r)) None"
    "eve_bases r = replicate (length (alice_bits r)) None"
proof -
  from ne have inc: "get_default (includeEve ps) False = False" by simp
  from run obtain er where
    rs0: "run_simulation F R
       (if q \<and> get_default (numQubits ps) 20 \<le> 50
        then quantum_photon R (get_default (includeEve ps) False) er
        else classical_photon R (get_default (includeEve ps) False) er
               (get_default (noiseLevel ps) (double_of F 0.01)))
       (get_default (numQubits ps) 20) (get_default (includeEve ps) False) g
     = (Inr r, g')"
    by (rule simulate_result_run)
  let ?n = "nat (get_default (numQubits ps) 20)"
  let ?body = "if q \<and> get_default (numQubits ps) 20 \<le> 50
        then quantum_photon R False er
        else classical_photon R False er (get_default (noiseLevel ps) (double_of F 0.01))"
  have rs: "run_simulation F R ?body (get_default (numQubits ps) 20) False g = (Inr r, g')"
    by (rule rs0 [unfolded inc])
  note f = run_simulation_facts [OF rs]
  from f(17) obtain phs where
    all: "list_all2 (\<lambda>j ph. \<exists>g1 g2. ?body (alice_bits r) (alice_bases r) (bob_bases r) j g1 = (Inr ph, g2))
            [0..<?n] phs" and
    ei: "eve_interceptions r = map fst phs" and
    eb: "eve_bits r = map (\<lambda>ph. fst (snd ph)) phs" and
    es: "eve_bases r = map (\<lambda>ph. fst (snd (snd ph))) phs"
    by blast
  have out: "fst ph = False \<and> fst (snd ph) = None \<and> fst (snd (snd ph)) = None"
    if "\<exists>g1 g2. ?body (alice_bits r) (alice_bases r) (bob_bases r) j g1 = (Inr ph, g2)" for j ph
  proof (cases "q \<and> get_default (numQubits ps) 20 \<le> 50")
    case True
    from that [unfolded if_P [OF True]] show ?thesis
      by (auto dest: quantum_photon_no_eve_out)
  next
    case False
    from that [unfolded if_not_P [OF False]] show ?thesis
      by (auto dest: classical_photon_no_eve_out)
  qed
  have len: "length [0..<?n] = length (alice_bits r)" by (simp add: f(2))
  show "eve_interceptions r = replicate (length (alice_bits r)) False"
    unfolding ei len [symmetric] by (rule map_const_of_list_all2 [OF all]) (simp add: out)
  show "eve_bits r = replicate (length (alice_bits r)) None"
    unfolding eb len [symmetric] by (rule map_const_of_list_all2 [OF all]) (simp add: out)
  show "eve_bases r = replicate (length (alice_bits r)) None"
    unfolding es len [symmetric] by (rule map_const_of_list_all2 [OF all]) (simp add: out)
qed

subsection \<open>The probabilistic loop body, part by part\<close>

lemma classical_photon_cases:
  assumes "classical_photon R inc er nl a ab bb i g = (Inr (ei, x, y, w), g')"
  obtains g1 tb ts g2 where
    "eve_intercepts_draw R inc er g = (ei, g1)"
    "eve_classical R ei a ab i g1 = (Inr (x, y, tb, ts), g2)"
    "bob_classical R nl bb i tb ts g2 = (Inr w, g')"
  using assms unfolding classical_photon_def
  by (auto split: prod.splits sum.splits)


lemma bob_classical_out:
  assumes "bob_classical R nl bb i tb ts g2 = (Inr v, g')"
  shows "i < length bb \<and>
         (if bb ! i = ts then v = (if fst (random_unit R g2) < nl then 1 - tb else tb)
          else v = fst (randint01 R g2))"
  using assms
  by (auto simp: bob_classical_def nth_py_def split: if_splits prod.splits)


lemma classical_photon_quiet:
  assumes run: "classical_photon R False er nl a ab bb j g = (Inr ph, g')"
    and quiet: "nl \<le> 0" and unit: "unit_interval_rng R" and same: "ab ! j = bb ! j"
  shows "snd (snd (snd ph)) = a ! j"
proof -
  obtain ei x y w where ph: "ph = (ei, x, y, w)" by (cases ph) auto
  from run [unfolded ph] obtain g1 tb ts g2 where
    d: "eve_intercepts_draw R False er g = (ei, g1)" and
    e: "eve_classical R ei a ab j g1 = (Inr (x, y, tb, ts), g2)" and
    b: "bob_classical R nl bb j tb ts g2 = (Inr w, g')"
    by (rule classical_photon_cases)
  from d have ei: "ei = False" by (simp add: eve_intercepts_draw_no_eve)
  from eve_classical_no_eve [OF e [unfolded ei]] have tb: "tb = a ! j" and ts: "ts = ab ! j"
    by simp_all
  from unit have "0 \<le> fst (random_unit R g2)" by (simp add: unit_interval_rng_def)
  with quiet have nf: "\<not> fst (random_unit R g2) < nl" by linarith
  from bob_classical_out [OF b] same ts tb nf have "w = a ! j" by simp
  then show ?thesis by (simp add: ph)
qed

subsection \<open>Rates outside their nominal range\<close>

lemma double_of_ge_1:
  assumes "monotone_rounding F" "1 \<le> x"
  shows "1 \<le> double_of F x"
proof -
  from assms have "nearest F 1 \<le> nearest F x" unfolding monotone_rounding_def by blast
  with assms(1) have "1 \<le> nearest F x" by (simp add: monotone_rounding_def)
  with assms(2) show ?thesis by (simp add: double_of_def)
qed

lemma double_of_le_0:
  assumes "monotone_rounding F" "x \<le> 0"
  shows "double_of F x \<le> 0"
proof -
  from assms have "nearest F x \<le> nearest F 0" unfolding monotone_rounding_def by blast
  with assms(1) have "nearest F x \<le> 0" by (simp add: monotone_rounding_def)
  with assms(2) show ?thesis by (simp add: double_of_def)
qed

lemma below_clamped_rate:
  assumes m: "monotone_rounding F" and u: "0 \<le> u" "u < 1"
  shows "u < double_of F (clamp 0 100 v / 100) \<longleftrightarrow> u < double_of F (v / 100)"
proof -
  consider "v < 0" | "0 \<le> v \<and> v \<le> 100" | "100 < v" by linarith
  then show ?thesis
  proof cases
    case 1
    then have c: "clamp 0 100 v = 0" by (simp add: clamp_def)
    from 1 have "v / 100 \<le> 0" by simp
    from double_of_le_0 [OF m this] u show ?thesis by (simp add: c double_of_0)
  next
    case 2
    then have "clamp 0 100 v = v" by (simp add: clamp_def)
    then show ?thesis by simp
  next
    case 3
    then have c: "clamp 0 100 v = 100" by (simp add: clamp_def)
    from 3 have "1 \<le> v / 100" by simp
    from double_of_ge_1 [OF m this] u show ?thesis by (simp add: c double_of_1)
  qed
qed

lemma below_clamped_noise:
  assumes "0 \<le> u" "u < 1"
  shows "u < clamp 0 1 x \<longleftrightarrow> u < x"
  using assms by (auto simp: clamp_def min_def max_def)

lemma eve_intercepts_draw_clamp:
  assumes "unit_interval_rng R" "monotone_rounding F"
  shows "eve_intercepts_draw R inc (double_of F (clamp 0 100 v / 100)) g
       = eve_intercepts_draw R inc (double_of F (v / 100)) g"
proof -
  obtain u g1 where d: "random_unit R g = (u, g1)" by (cases "random_unit R g")
  from assms(1) have "0 \<le> fst (random_unit R g) \<and> fst (random_unit R g) < 1"
    by (simp add: unit_interval_rng_def)
  then have "0 \<le> u" "u < 1" by (simp_all add: d)
  from below_clamped_rate [OF assms(2) this] show ?thesis
    by (simp add: eve_intercepts_draw_def d)
qed

lemma bob_classical_clamp:
  assumes "unit_interval_rng R"
  shows "bob_classical R (clamp 0 1 nl) bb i tb ts g = bob_classical R nl bb i tb ts g"
proof -
  obtain u g1 where d: "random_unit R g = (u, g1)" by (cases "random_unit R g")
  from assms have "0 \<le> fst (random_unit R g) \<and> fst (random_unit R g) < 1"
    by (simp add: unit_interval_rng_def)
  then have "0 \<le> u" "u < 1" by (simp_all add: d)
  from below_clamped_noise [OF this] show ?thesis
    by (simp add: bob_classical_def d split: sum.splits)
qed

lemma classical_photon_clamp:
  assumes "unit_interval_rng R" "monotone_rounding F"
  shows "classical_photon R inc (double_of F (clamp 0 100 v / 100)) (clamp 0 1 nl)
       = classical_photon R inc (double_of F (v / 100)) nl"
  unfolding classical_photon_def eve_intercepts_draw_clamp [OF assms] bob_classical_clamp [OF assms(1)]
  by (rule refl)

lemma classical_photon_clamp_rate:
  assumes "unit_interval_rng R" "monotone_rounding F"
  shows "classical_photon R inc (double_of F (clamp 0 100 v / 100)) nl
       = classical_photon R inc (double_of F (v / 100)) nl"
  unfolding classical_photon_def eve_intercepts_draw_clamp [OF assms]
  by (rule refl)

lemma quantum_photon_clamp:
  assumes "unit_interval_rng R" "monotone_rounding F"
  shows "quantum_photon R inc (double_of F (clamp 0 100 v / 100))
       = quantum_photon R inc (double_of F (v / 100))"
  unfolding quantum_photon_def eve_intercepts_draw_clamp [OF assms]
  by (rule refl)

text \<open>The rate of the clamped parameters, when the rate of the given ones can be computed.\<close>

lemma div_100_clamp_rate:
  assumes "div_100 F x = Inr er"
  shows "\<exists>v. er = double_of F (v / 100) \<and>
             div_100 F (clamp_rate x) = Inr (double_of F (clamp 0 100 v / 100))"
proof (cases x)
  case (IntNum n)
  with assms have er: "er = double_of F (of_int n / 100)"
    by (simp add: int_truediv_def split: if_splits)
  let ?c = "max 0 (min 100 n)"
  have cv: "real_of_int ?c = clamp 0 100 (of_int n)"
    by (simp add: clamp_def max_def min_def)
  have "0 \<le> ?c" "?c \<le> 100" by simp_all
  then have "\<bar>real_of_int ?c / 100\<bar> \<le> 1" by simp
  with one_below_overflow_bound have "\<not> overflow_bound \<le> \<bar>real_of_int ?c / real_of_int 100\<bar>"
    by simp
  then have "int_truediv F ?c 100 = Inr (double_of F (real_of_int ?c / 100))"
    by (simp add: int_truediv_def)
  with er IntNum cv show ?thesis by auto
next
  case (FloatNum y)
  with assms show ?thesis by auto
qed

lemma simulate_clamped:
  assumes u: "unit_interval_rng R" and m: "monotone_rounding F"
    and rate: "eve_rate_of F ps = Inr er"
  shows "simulate F R q (clamped ps) g = simulate F R q ps g"
proof -
  have n: "numQubits (clamped ps) = numQubits ps" "includeEve (clamped ps) = includeEve ps"
    by (simp_all add: clamped_def)
  have dflt: "clamp_rate (IntNum 30) = IntNum 30" by simp
  have gd: "get_default (eveInterceptionRate (clamped ps)) (IntNum 30)
          = clamp_rate (get_default (eveInterceptionRate ps) (IntNum 30))"
    by (cases "eveInterceptionRate ps") (simp_all add: clamped_def get_default_def)
  from div_100_clamp_rate [OF rate [unfolded eve_rate_of_def]] obtain v where
    er: "er = double_of F (v / 100)" and
    cr: "eve_rate_of F (clamped ps) = Inr (double_of F (clamp 0 100 v / 100))"
    unfolding eve_rate_of_def gd by blast
  show ?thesis
  proof (cases "noiseLevel ps")
    case None
    then have nl: "noiseLevel (clamped ps) = None" by (simp add: clamped_def)
    show ?thesis
      unfolding simulate_run [OF cr] simulate_run [OF rate] n nl None er
        classical_photon_clamp_rate [OF u m] quantum_photon_clamp [OF u m]
      by (rule refl)
  next
    case (Some x)
    then have nl: "noiseLevel (clamped ps) = Some (clamp 0 1 x)" by (simp add: clamped_def)
    have gs: "get_default (Some y) d = y" for y d :: real by (simp add: get_default_def)
    show ?thesis
      unfolding simulate_run [OF cr] simulate_run [OF rate] n nl Some er gs
        classical_photon_clamp [OF u m] quantum_photon_clamp [OF u m]
      by (rule refl)
  qed
qed

subsection \<open>The interception rate\<close>

lemma eve_rate_of_cases:
  obtains er where "eve_rate_of F ps = Inr er" | "eve_rate_of F ps = Inl OverflowError"
proof (cases "eve_rate_of F ps")
  case (Inl e)
  with eve_rate_of_error [OF Inl] that(2) show ?thesis by simp
next
  case (Inr er)
  with that(1) show ?thesis by simp
qed

lemma eve_rate_of_numQubits [simp]:
  "eve_rate_of F (ps\<lparr>numQubits := n\<rparr>) = eve_rate_of F ps"
  by (simp add: eve_rate_of_def)

lemma int_truediv_counts_eq:
  assumes "a \<le> b" "0 < b" "v = double_of F (real a / real b)"
  shows "int_truediv F (int a) (int b) = Inr v"
  using int_truediv_counts [OF assms(1,2), of F] assms(3) by simp

lemma eve_rate_of_no_overflow:
  assumes "eve_rate_of F ps \<noteq> Inl OverflowError"
  obtains er where "eve_rate_of F ps = Inr er"
  using assms by (cases rule: eve_rate_of_cases [of F ps]) simp_all

section \<open>Result processing\<close>

text \<open>
  Claim C1. For every simulation run that returns a result, the result processor sets
  \<open>matchingBases[i]\<close> to \<open>aliceBases[i] == bobBases[i]\<close> at every index; the final key
  is Alice's bits at exactly the matching-basis records where the two bits agree, every
  other matching-basis record counts as one error and contributes nothing to the key, and
  the error rate is the division \<open>errorCount / siftedCount\<close>, or 0 when no basis matches.
\<close>

theorem process_results_sifts:
  assumes "simulate F R q ps g = (Inr r, g')"
  shows "length (matching_bases r) = length (alice_bases r) \<and>
         length (matching_bases r) = length (bob_bases r) \<and>
         (\<forall>i < length (matching_bases r).
            matching_bases r ! i = (alice_bases r ! i = bob_bases r ! i)) \<and>
         final_key r = sifted_key r \<and>
         length (final_key r) + error_count r = sifted_count r \<and>
         (if sifted_count r = 0 then error_rate r = 0
          else int_truediv F (int (error_count r)) (int (sifted_count r)) = Inr (error_rate r))"
proof -
  from assms obtain er where
    "run_simulation F R
       (if q \<and> get_default (numQubits ps) 20 \<le> 50
        then quantum_photon R (get_default (includeEve ps) False) er
        else classical_photon R (get_default (includeEve ps) False) er
               (get_default (noiseLevel ps) (double_of F 0.01)))
       (get_default (numQubits ps) 20) (get_default (includeEve ps) False) g
     = (Inr r, g')"
    by (rule simulate_result_run)
  note f = run_simulation_facts [OF this]
  have "matching_bases r ! i = (alice_bases r ! i = bob_bases r ! i)"
    if "i < length (matching_bases r)" for i
  proof -
    from that f(9) have "i < nat (get_default (numQubits ps) 20)" by simp
    then show ?thesis by (subst f(11)) simp
  qed
  moreover have "if sifted_count r = 0 then error_rate r = 0
      else int_truediv F (int (error_count r)) (int (sifted_count r)) = Inr (error_rate r)"
  proof (cases "sifted_count r = 0")
    case True
    then show ?thesis by (simp add: f(13))
  next
    case False
    have "int_truediv F (int (error_count r)) (int (sifted_count r)) = Inr (error_rate r)"
      by (rule int_truediv_counts_eq) (use False f(16) in \<open>simp_all add: f(13)\<close>)
    with False show ?thesis by simp
  qed
  ultimately show ?thesis using f(3,5,9,12,16) by simp
qed

theorem process_results_sifts_witness:
  "simulate exact_arith counter_rng False example_params 0 = (Inr example_result, 16) \<and>
   matching_bases example_result ! 1 =
     (alice_bases example_result ! 1 = bob_bases example_result ! 1) \<and>
   final_key example_result = sifted_key example_result \<and>
   sifted_count example_result = 2 \<and> error_count example_result = 1 \<and>
   int_truediv exact_arith 1 2 = Inr (error_rate example_result)"
  using process_results_sifts [OF example_run] example_run
  by (simp add: example_result_def sifted_count_def error_count_def)

section \<open>The empty run\<close>

text \<open>
  Claim C3 says that \<open>simulate\<close> with \<open>numQubits == 0\<close> returns a result with empty
  sequences and all metrics 0, and never a division fault. The code behaves otherwise:
  with no photon, \<open>len(final_key) / len(alice_bits)\<close> divides by zero, on either backend
  and whatever the entropy source, and the call raises \<open>ZeroDivisionError\<close> (unless the
  interception rate is an integer so large that line 46 has raised \<open>OverflowError\<close>
  before).
\<close>

theorem simulate_zero_qubits_raises:
  "simulate F R q (ps\<lparr>numQubits := Some 0\<rparr>) g =
     (Inl (if eve_rate_of F ps = Inl OverflowError then OverflowError else ZeroDivisionError), g)"
proof (cases rule: eve_rate_of_cases [of F ps])
  case (1 er)
  have "simulate F R q (ps\<lparr>numQubits := Some 0\<rparr>) g = (Inl ZeroDivisionError, g)"
    by (rule simulate_nonpos [where er = er]) (simp_all add: get_default_def 1)
  with 1 show ?thesis by simp
next
  case 2
  have "simulate F R q (ps\<lparr>numQubits := Some 0\<rparr>) g = (Inl OverflowError, g)"
    by (rule simulate_overflow) (simp add: 2)
  with 2 show ?thesis by simp
qed

section \<open>Fidelity and error rate\<close>

text \<open>
  Claim C2 says that the returned \<open>quantumFidelity\<close> equals \<open>1 - errorRate\<close> for every
  run. A run in which no basis matches returns both metrics as 0, because each of the two
  computations guards its zero denominator by returning 0: one photon whose bases differ
  refutes the identity.
\<close>

theorem fidelity_identity_counterexample:
  "simulate exact_arith counter_rng False unmatched_params 1 = (Inr unmatched_result, 5) \<and>
   quantum_fidelity unmatched_result \<noteq> 1 - error_rate unmatched_result"
  using unmatched_run by (simp add: unmatched_result_def)

text \<open>
  Claim C2, amended. For every run that returns a result: when at least one basis matches,
  \<open>quantumFidelity\<close> is the division \<open>(siftedCount - errorCount) / siftedCount\<close> and
  \<open>errorRate\<close> is the division \<open>errorCount / siftedCount\<close>, two float quotients that are
  computed and rounded independently of each other; when no basis matches, both are 0.
  Nothing is said of \<open>1 - errorRate\<close>.
\<close>

theorem fidelity_and_error_rate_quotients:
  assumes "simulate F R q ps g = (Inr r, g')"
  shows "if sifted_count r = 0 then quantum_fidelity r = 0 \<and> error_rate r = 0
         else int_truediv F (int (sifted_count r) - int (error_count r)) (int (sifted_count r))
                = Inr (quantum_fidelity r) \<and>
              int_truediv F (int (error_count r)) (int (sifted_count r)) = Inr (error_rate r)"
proof -
  from assms obtain er where
    "run_simulation F R
       (if q \<and> get_default (numQubits ps) 20 \<le> 50
        then quantum_photon R (get_default (includeEve ps) False) er
        else classical_photon R (get_default (includeEve ps) False) er
               (get_default (noiseLevel ps) (double_of F 0.01)))
       (get_default (numQubits ps) 20) (get_default (includeEve ps) False) g
     = (Inr r, g')"
    by (rule simulate_result_run)
  note f = run_simulation_facts [OF this]
  show ?thesis
  proof (cases "sifted_count r = 0")
    case True
    then show ?thesis by (simp add: f(13) f(15))
  next
    case False
    have k: "int (sifted_count r) - int (error_count r) = int (length (final_key r))"
      using f(16) by linarith
    have qf: "int_truediv F (int (length (final_key r))) (int (sifted_count r))
        = Inr (quantum_fidelity r)"
      by (rule int_truediv_counts_eq) (use False f(16) in \<open>simp_all add: f(15)\<close>)
    have er: "int_truediv F (int (error_count r)) (int (sifted_count r)) = Inr (error_rate r)"
      by (rule int_truediv_counts_eq) (use False f(16) in \<open>simp_all add: f(13)\<close>)
    from False qf er show ?thesis by (simp only: k if_False simp_thms)
  qed
qed

theorem fidelity_and_error_rate_quotients_witness:
  "simulate exact_arith counter_rng False example_params 0 = (Inr example_result, 16) \<and>
   sifted_count example_result = 2 \<and> error_count example_result = 1 \<and>
   int_truediv exact_arith (2 - 1) 2 = Inr (quantum_fidelity example_result) \<and>
   int_truediv exact_arith 1 2 = Inr (error_rate example_result)"
  using fidelity_and_error_rate_quotients [OF example_run] example_run
  by (simp add: example_result_def sifted_count_def error_count_def)

section \<open>A negative photon count\<close>

text \<open>
  Claim C4 says that \<open>simulate\<close> with \<open>numQubits < 0\<close> fails with a
  \<open>ValidationError\<close>. The source validates nothing and has no such exception: with
  \<open>numQubits = -1\<close> the failure that reaches the caller is not a \<open>ValidationError\<close>.
\<close>

theorem negative_qubits_counterexample:
  "fst (simulate exact_arith counter_rng False (unmatched_params\<lparr>numQubits := Some (- 1)\<rparr>) 1)
     = Inl ZeroDivisionError \<and>
   fst (simulate exact_arith counter_rng False (unmatched_params\<lparr>numQubits := Some (- 1)\<rparr>) 1)
     \<noteq> Inl ValidationError"
proof -
  have rate: "eve_rate_of exact_arith (unmatched_params\<lparr>numQubits := Some (- 1)\<rparr>) = Inr (3 / 10)"
    by (simp add: eve_rate_of_def unmatched_params_def get_default_def exact_truediv)
  have "simulate exact_arith counter_rng False (unmatched_params\<lparr>numQubits := Some (- 1)\<rparr>) 1
      = (Inl ZeroDivisionError, 1)"
    by (rule simulate_nonpos [OF _ rate]) (simp add: get_default_def)
  then show ?thesis by simp
qed

text \<open>
  Claim C4, amended. With \<open>numQubits < 0\<close> no validation takes place and no
  \<open>ValidationError\<close> is raised: \<open>range(numQubits)\<close> is empty, nothing is drawn from the
  entropy source, and the call has exactly the outcome of the call with \<open>numQubits = 0\<close>.
\<close>

theorem negative_qubits_run_as_zero:
  assumes "n < 0"
  shows "simulate F R q (ps\<lparr>numQubits := Some n\<rparr>) g = simulate F R q (ps\<lparr>numQubits := Some 0\<rparr>) g \<and>
         fst (simulate F R q (ps\<lparr>numQubits := Some n\<rparr>) g) \<noteq> Inl ValidationError"
proof (cases rule: eve_rate_of_cases [of F ps])
  case (1 er)
  have a: "simulate F R q (ps\<lparr>numQubits := Some n\<rparr>) g = (Inl ZeroDivisionError, g)"
    by (rule simulate_nonpos [where er = er]) (use assms in \<open>simp_all add: get_default_def 1\<close>)
  have b: "simulate F R q (ps\<lparr>numQubits := Some 0\<rparr>) g = (Inl ZeroDivisionError, g)"
    by (rule simulate_nonpos [where er = er]) (simp_all add: get_default_def 1)
  show ?thesis by (simp add: a b)
next
  case 2
  have a: "simulate F R q (ps\<lparr>numQubits := Some n\<rparr>) g = (Inl OverflowError, g)"
    by (rule simulate_overflow) (simp add: 2)
  have b: "simulate F R q (ps\<lparr>numQubits := Some 0\<rparr>) g = (Inl OverflowError, g)"
    by (rule simulate_overflow) (simp add: 2)
  show ?thesis by (simp add: a b)
qed

theorem negative_qubits_run_as_zero_witness:
  "(- 1 :: int) < 0 \<and>
   simulate exact_arith counter_rng False (example_params\<lparr>numQubits := Some (- 1)\<rparr>) 0
     = simulate exact_arith counter_rng False (example_params\<lparr>numQubits := Some 0\<rparr>) 0 \<and>
   fst (simulate exact_arith counter_rng False (example_params\<lparr>numQubits := Some (- 1)\<rparr>) 0)
     \<noteq> Inl ValidationError"
proof -
  have h: "(- 1 :: int) < 0" by simp
  show ?thesis
    using h negative_qubits_run_as_zero [OF h, of exact_arith counter_rng False example_params 0]
    by blast
qed

section \<open>Lengths and counts\<close>

text \<open>
  Claim C7. For \<open>numQubits = N\<close>, each of the eight per-photon sequences of a returned
  result (\<open>aliceBits\<close>, \<open>aliceBases\<close>, \<open>bobBits\<close>, \<open>bobBases\<close>, \<open>eveBits\<close>,
  \<open>eveBases\<close>, \<open>eveInterceptions\<close>, \<open>matchingBases\<close>) has length exactly \<open>N\<close>, on
  either backend; and for \<open>N \<ge> 1\<close> a result is returned, provided the division of the
  interception rate by 100 does not overflow.
\<close>

theorem sequences_have_length_numQubits:
  "(1 \<le> get_default (numQubits ps) 20 \<and> eve_rate_of F ps \<noteq> Inl OverflowError
      \<longrightarrow> (\<exists>r g'. simulate F R q ps g = (Inr r, g'))) \<and>
   (\<forall>r g'. simulate F R q ps g = (Inr r, g') \<longrightarrow>
      int (length (alice_bits r)) = get_default (numQubits ps) 20 \<and>
      int (length (alice_bases r)) = get_default (numQubits ps) 20 \<and>
      int (length (bob_bits r)) = get_default (numQubits ps) 20 \<and>
      int (length (bob_bases r)) = get_default (numQubits ps) 20 \<and>
      int (length (eve_bits r)) = get_default (numQubits ps) 20 \<and>
      int (length (eve_bases r)) = get_default (numQubits ps) 20 \<and>
      int (length (eve_interceptions r)) = get_default (numQubits ps) 20 \<and>
      int (length (matching_bases r)) = get_default (numQubits ps) 20)"
proof (intro conjI impI allI)
  assume a: "1 \<le> get_default (numQubits ps) 20 \<and> eve_rate_of F ps \<noteq> Inl OverflowError"
  then obtain er where "eve_rate_of F ps = Inr er" by (auto elim: eve_rate_of_no_overflow)
  with a show "\<exists>r g'. simulate F R q ps g = (Inr r, g')" by (auto intro: simulate_returns)
next
  fix r g'
  assume run: "simulate F R q ps g = (Inr r, g')"
  from run obtain er where
    "run_simulation F R
       (if q \<and> get_default (numQubits ps) 20 \<le> 50
        then quantum_photon R (get_default (includeEve ps) False) er
        else classical_photon R (get_default (includeEve ps) False) er
               (get_default (noiseLevel ps) (double_of F 0.01)))
       (get_default (numQubits ps) 20) (get_default (includeEve ps) False) g
     = (Inr r, g')"
    by (rule simulate_result_run)
  note f = run_simulation_facts [OF this]
  from f(1) have n: "int (nat (get_default (numQubits ps) 20)) = get_default (numQubits ps) 20"
    by simp
  show "int (length (alice_bits r)) = get_default (numQubits ps) 20" by (simp only: f(2) n)
  show "int (length (alice_bases r)) = get_default (numQubits ps) 20" by (simp only: f(3) n)
  show "int (length (bob_bits r)) = get_default (numQubits ps) 20" by (simp only: f(4) n)
  show "int (length (bob_bases r)) = get_default (numQubits ps) 20" by (simp only: f(5) n)
  show "int (length (eve_bits r)) = get_default (numQubits ps) 20" by (simp only: f(6) n)
  show "int (length (eve_bases r)) = get_default (numQubits ps) 20" by (simp only: f(7) n)
  show "int (length (eve_interceptions r)) = get_default (numQubits ps) 20" by (simp only: f(8) n)
  show "int (length (matching_bases r)) = get_default (numQubits ps) 20" by (simp only: f(9) n)
qed

theorem sequences_have_length_numQubits_witness:
  "1 \<le> get_default (numQubits example_params) 20 \<and>
   eve_rate_of exact_arith example_params \<noteq> Inl OverflowError \<and>
   simulate exact_arith counter_rng False example_params 0 = (Inr example_result, 16) \<and>
   get_default (numQubits example_params) 20 = 4 \<and>
   length (alice_bits example_result) = 4 \<and> length (alice_bases example_result) = 4 \<and>
   length (bob_bits example_result) = 4 \<and> length (bob_bases example_result) = 4 \<and>
   length (eve_bits example_result) = 4 \<and> length (eve_bases example_result) = 4 \<and>
   length (eve_interceptions example_result) = 4 \<and>
   length (matching_bases example_result) = 4"
proof -
  have rate: "eve_rate_of exact_arith example_params \<noteq> Inl OverflowError"
    by (simp add: eve_rate_of_def example_params_def get_default_def exact_truediv)
  show ?thesis
    using sequences_have_length_numQubits [of example_params exact_arith counter_rng False 0]
      example_run rate
    by (simp add: example_params_def example_result_def get_default_def)
qed

text \<open>
  Claim C8. For every run that returns a result, \<open>len(finalKey)\<close> is at most the number
  of true entries of \<open>matchingBases\<close>, and that number is at most \<open>numQubits\<close>.
\<close>

theorem key_within_sifted_within_numQubits:
  assumes "simulate F R q ps g = (Inr r, g')"
  shows "length (final_key r) \<le> sifted_count r \<and>
         int (sifted_count r) \<le> get_default (numQubits ps) 20"
proof -
  from assms obtain er where
    "run_simulation F R
       (if q \<and> get_default (numQubits ps) 20 \<le> 50
        then quantum_photon R (get_default (includeEve ps) False) er
        else classical_photon R (get_default (includeEve ps) False) er
               (get_default (noiseLevel ps) (double_of F 0.01)))
       (get_default (numQubits ps) 20) (get_default (includeEve ps) False) g
     = (Inr r, g')"
    by (rule simulate_result_run)
  note f = run_simulation_facts [OF this]
  have "sifted_count r \<le> length (matching_bases r)"
    unfolding sifted_count_def by (rule length_filter_le)
  then have "sifted_count r \<le> nat (get_default (numQubits ps) 20)" by (simp only: f(9))
  then have "int (sifted_count r) \<le> get_default (numQubits ps) 20" using f(1) by linarith
  moreover have "length (final_key r) \<le> sifted_count r" using f(16) by linarith
  ultimately show ?thesis by simp
qed

theorem key_within_sifted_within_numQubits_witness:
  "simulate exact_arith counter_rng False example_params 0 = (Inr example_result, 16) \<and>
   length (final_key example_result) = 1 \<and> sifted_count example_result = 2 \<and>
   get_default (numQubits example_params) 20 = 4"
  using key_within_sifted_within_numQubits [OF example_run] example_run
  by (simp add: example_params_def example_result_def sifted_count_def get_default_def)

section \<open>Runs without Eve\<close>

text \<open>
  Claim C9 says that with \<open>includeEve\<close> false two calls that differ only in
  \<open>eveInterceptionRate\<close> produce identical results. The rate is divided by 100 on line 46
  before \<open>includeEve\<close> is consulted: an integer rate of \<open>10^400\<close> raises
  \<open>OverflowError\<close> there, where the same call with a rate of 50 returns a result.
\<close>

theorem eve_rate_without_eve_counterexample:
  "\<not> get_default (includeEve example_params) False \<and>
   simulate exact_arith counter_rng False
     (example_params\<lparr>eveInterceptionRate := Some (IntNum (10 ^ 400))\<rparr>) 0
     = (Inl OverflowError, 0) \<and>
   simulate exact_arith counter_rng False example_params 0 = (Inr example_result, 16)"
proof -
  have "eve_rate_of exact_arith (example_params\<lparr>eveInterceptionRate := Some (IntNum (10 ^ 400))\<rparr>)
      = Inl OverflowError"
    by (simp add: eve_rate_of_def get_default_def int_truediv_def overflow_bound_def)
  from simulate_overflow [OF this] example_run show ?thesis
    by (simp add: example_params_def get_default_def)
qed

text \<open>
  Claim C9, amended. When \<open>includeEve\<close> is false (or absent) and the division of the rate
  by 100 overflows in neither call, \<open>eveInterceptionRate\<close> has no effect: from the same
  entropy state the two calls have the same outcome and leave the entropy source in the
  same state, on either backend; and in a returned result every \<open>eveInterceptions\<close> entry
  is false and every \<open>eveBits\<close> and \<open>eveBases\<close> entry is \<open>None\<close>.
\<close>

theorem eve_rate_irrelevant_without_eve:
  assumes "\<not> get_default (includeEve ps) False"
    and "eve_rate_of F (ps\<lparr>eveInterceptionRate := x\<rparr>) \<noteq> Inl OverflowError"
    and "eve_rate_of F ps \<noteq> Inl OverflowError"
  shows "simulate F R q (ps\<lparr>eveInterceptionRate := x\<rparr>) g = simulate F R q ps g \<and>
         (\<forall>r g'. simulate F R q ps g = (Inr r, g') \<longrightarrow>
            eve_interceptions r = replicate (length (alice_bits r)) False \<and>
            eve_bits r = replicate (length (alice_bits r)) None \<and>
            eve_bases r = replicate (length (alice_bits r)) None)"
proof (intro conjI allI impI)
  from assms(2) obtain er1 where r1: "eve_rate_of F (ps\<lparr>eveInterceptionRate := x\<rparr>) = Inr er1"
    by (rule eve_rate_of_no_overflow)
  from assms(3) obtain er2 where r2: "eve_rate_of F ps = Inr er2"
    by (rule eve_rate_of_no_overflow)
  show "simulate F R q (ps\<lparr>eveInterceptionRate := x\<rparr>) g = simulate F R q ps g"
    by (rule simulate_eve_rate_no_eve [OF assms(1) r1 r2])
next
  fix r g'
  assume run: "simulate F R q ps g = (Inr r, g')"
  show "eve_interceptions r = replicate (length (alice_bits r)) False"
    by (rule no_eve_tracks(1) [OF run assms(1)])
  show "eve_bits r = replicate (length (alice_bits r)) None"
    by (rule no_eve_tracks(2) [OF run assms(1)])
  show "eve_bases r = replicate (length (alice_bits r)) None"
    by (rule no_eve_tracks(3) [OF run assms(1)])
qed

theorem eve_rate_irrelevant_without_eve_witness:
  "\<not> get_default (includeEve example_params) False \<and>
   eve_rate_of exact_arith (example_params\<lparr>eveInterceptionRate := Some (FloatNum 5)\<rparr>)
     \<noteq> Inl OverflowError \<and>
   eve_rate_of exact_arith example_params \<noteq> Inl OverflowError \<and>
   simulate exact_arith counter_rng False (example_params\<lparr>eveInterceptionRate := Some (FloatNum 5)\<rparr>) 0
     = simulate exact_arith counter_rng False example_params 0 \<and>
   simulate exact_arith counter_rng False example_params 0 = (Inr example_result, 16) \<and>
   eve_interceptions example_result = replicate 4 False \<and>
   eve_bits example_result = replicate 4 None \<and>
   eve_bases example_result = replicate 4 None"
proof -
  have h: "\<not> get_default (includeEve example_params) False"
    by (simp add: example_params_def get_default_def)
  have r1: "eve_rate_of exact_arith (example_params\<lparr>eveInterceptionRate := Some (FloatNum 5)\<rparr>)
      \<noteq> Inl OverflowError"
    by (simp add: eve_rate_of_def get_default_def)
  have r2: "eve_rate_of exact_arith example_params \<noteq> Inl OverflowError"
    by (simp add: eve_rate_of_def example_params_def get_default_def exact_truediv)
  have e: "eve_interceptions example_result = replicate 4 False \<and>
      eve_bits example_result = replicate 4 None \<and> eve_bases example_result = replicate 4 None"
    by (simp add: example_result_def numeral_eq_Suc)
  show ?thesis
    using h r1 r2 e example_run
      eve_rate_irrelevant_without_eve [OF h r1 r2, of counter_rng False 0]
    by blast
qed

section \<open>Bob's measurement on the probabilistic backend\<close>



section \<open>The channel without Eve and without noise\<close>

text \<open>
  Claim C10. On the probabilistic backend without Eve and with \<open>noiseLevel \<le> 0\<close>, for an
  entropy source whose \<open>random.random()\<close> stays in the unit interval: at every
  matching-basis index Bob's bit equals Alice's bit, so \<open>errorCount\<close> and \<open>errorRate\<close>
  are 0, the key has one bit for each matching-basis index, and \<open>quantumFidelity\<close> is 1
  when some basis matches and 0 otherwise.
\<close>

theorem no_eve_no_noise_is_error_free:
  assumes run: "classical_simulation F R n False er nl g = (Inr r, g')"
    and quiet: "nl \<le> 0" and unit: "unit_interval_rng R"
  shows "(\<forall>i < length (matching_bases r). matching_bases r ! i \<longrightarrow> bob_bits r ! i = alice_bits r ! i) \<and>
         error_count r = 0 \<and> error_rate r = 0 \<and>
         length (final_key r) = sifted_count r \<and>
         quantum_fidelity r = (if 0 < sifted_count r then 1 else 0)"
proof -
  note f = run_simulation_facts [OF run [unfolded classical_simulation_def]]
  from f(17) obtain phs where
    all: "list_all2 (\<lambda>j ph. \<exists>g1 g2. classical_photon R False er nl (alice_bits r) (alice_bases r)
                                      (bob_bases r) j g1 = (Inr ph, g2)) [0..<nat n] phs" and
    bs: "bob_bits r = map (\<lambda>ph. snd (snd (snd ph))) phs"
    by blast
  from all have lp: "length phs = nat n" by (simp add: list_all2_lengthD [symmetric])
  have agree: "bob_bits r ! i = alice_bits r ! i"
    if i: "i < length (matching_bases r)" and m: "matching_bases r ! i" for i
  proof -
    from i f(9) have i': "i < nat n" by simp
    from m have same: "alice_bases r ! i = bob_bases r ! i"
      using i' by (subst (asm) f(11)) simp
    from list_all2_nthD [OF all, of i] i' obtain g1 g2 where
      "classical_photon R False er nl (alice_bits r) (alice_bases r) (bob_bases r) i g1
         = (Inr (phs ! i), g2)"
      by auto
    from classical_photon_quiet [OF this quiet unit same]
    show ?thesis using i' lp by (simp add: bs)
  qed
  have ec: "error_count r = 0"
    unfolding error_count_def using agree by (simp add: filter_empty_conv)
  with f(16) have lk: "length (final_key r) = sifted_count r" by simp
  have er: "error_rate r = 0" by (simp add: f(13) ec double_of_0)
  have qf: "quantum_fidelity r = (if 0 < sifted_count r then 1 else 0)"
    by (simp add: f(15) lk double_of_1)
  from agree ec er lk qf show ?thesis by blast
qed

theorem no_eve_no_noise_is_error_free_witness:
  "classical_simulation exact_arith counter_rng 4 False (1 / 2) 0 0 = (Inr quiet_result, 16) \<and>
   (0 :: real) \<le> 0 \<and> unit_interval_rng counter_rng \<and>
   matching_bases quiet_result ! 3 \<and>
   bob_bits quiet_result ! 3 = alice_bits quiet_result ! 3 \<and>
   error_count quiet_result = 0 \<and> error_rate quiet_result = 0 \<and>
   length (final_key quiet_result) = sifted_count quiet_result \<and>
   sifted_count quiet_result = 2 \<and> quantum_fidelity quiet_result = 1"
proof -
  have q: "(0 :: real) \<le> 0" by simp
  have c: "matching_bases quiet_result ! 3 \<and> sifted_count quiet_result = 2"
    by (simp add: quiet_result_def example_result_def sifted_count_def)
  show ?thesis
    using no_eve_no_noise_is_error_free [OF quiet_run q counter_rng_unit_interval]
      quiet_run counter_rng_unit_interval c
    by (simp add: quiet_result_def example_result_def)
qed

section \<open>Rates outside their nominal range\<close>

text \<open>
  Claim C6 says that for every parameter set \<open>simulate\<close> completes without raising and
  returns what the call with the clamped rates returns. Four photons with an integer
  interception rate of \<open>10^400\<close> refute both parts: the division on line 46 raises
  \<open>OverflowError\<close>, while the call with the rate clamped to 100 returns a result.
\<close>

theorem out_of_range_rates_counterexample:
  "simulate exact_arith counter_rng False
     (out_of_range_params\<lparr>eveInterceptionRate := Some (IntNum (10 ^ 400))\<rparr>) 0
     = (Inl OverflowError, 0) \<and>
   simulate exact_arith counter_rng False
     (clamped (out_of_range_params\<lparr>eveInterceptionRate := Some (IntNum (10 ^ 400))\<rparr>)) 0
     = (Inr out_of_range_result, 25)"
proof -
  have "eve_rate_of exact_arith (out_of_range_params\<lparr>eveInterceptionRate := Some (IntNum (10 ^ 400))\<rparr>)
      = Inl OverflowError"
    by (simp add: eve_rate_of_def get_default_def int_truediv_def overflow_bound_def)
  from simulate_overflow [OF this] have a:
    "simulate exact_arith counter_rng False
       (out_of_range_params\<lparr>eveInterceptionRate := Some (IntNum (10 ^ 400))\<rparr>) 0
     = (Inl OverflowError, 0)" .
  have same: "clamped (out_of_range_params\<lparr>eveInterceptionRate := Some (IntNum (10 ^ 400))\<rparr>)
      = clamped out_of_range_params"
    by (simp add: clamped_def out_of_range_params_def)
  have rate: "eve_rate_of exact_arith out_of_range_params = Inr (3 / 2)"
    by (simp add: eve_rate_of_def out_of_range_params_def get_default_def exact_truediv)
  have b: "simulate exact_arith counter_rng False (clamped out_of_range_params) 0
      = (Inr out_of_range_result, 25)"
    unfolding simulate_clamped [OF counter_rng_unit_interval exact_arith_monotone rate]
    by (rule out_of_range_run)
  from a b show ?thesis by (simp only: same simp_thms)
qed

text \<open>
  Claim C6, amended. For every parameter set whose interception rate can be divided by 100
  without overflow (every float, and every integer that is not astronomically large), and
  every entropy source whose \<open>random.random()\<close> stays in the unit interval, under a
  monotone rounding: \<open>simulate\<close> has exactly the outcome, and leaves the entropy source in
  exactly the state, of the same call with \<open>eveInterceptionRate\<close> clamped to \<open>[0, 100]\<close>
  and \<open>noiseLevel\<close> clamped to \<open>[0, 1]\<close>; and whenever \<open>numQubits \<ge> 1\<close> it returns a
  result, whatever the two rates are.
\<close>

theorem out_of_range_rates_act_as_clamped:
  assumes "unit_interval_rng R" and "monotone_rounding F"
    and "eve_rate_of F ps \<noteq> Inl OverflowError"
  shows "simulate F R q (clamped ps) g = simulate F R q ps g \<and>
         (1 \<le> get_default (numQubits ps) 20 \<longrightarrow> (\<exists>r g'. simulate F R q ps g = (Inr r, g')))"
proof -
  from assms(3) obtain er where rate: "eve_rate_of F ps = Inr er"
    by (rule eve_rate_of_no_overflow)
  show ?thesis
  proof (intro conjI impI)
    show "simulate F R q (clamped ps) g = simulate F R q ps g"
      by (rule simulate_clamped [OF assms(1,2) rate])
  next
    assume "1 \<le> get_default (numQubits ps) 20"
    then show "\<exists>r g'. simulate F R q ps g = (Inr r, g')" by (rule simulate_returns [OF _ rate])
  qed
qed

theorem out_of_range_rates_act_as_clamped_witness:
  "unit_interval_rng counter_rng \<and> monotone_rounding exact_arith \<and>
   eve_rate_of exact_arith out_of_range_params \<noteq> Inl OverflowError \<and>
   simulate exact_arith counter_rng False (clamped out_of_range_params) 0
     = simulate exact_arith counter_rng False out_of_range_params 0 \<and>
   1 \<le> get_default (numQubits out_of_range_params) 20 \<and>
   simulate exact_arith counter_rng False out_of_range_params 0 = (Inr out_of_range_result, 25) \<and>
   eveInterceptionRate (clamped out_of_range_params) = Some (IntNum 100) \<and>
   noiseLevel (clamped out_of_range_params) = Some 1"
proof -
  have rate: "eve_rate_of exact_arith out_of_range_params \<noteq> Inl OverflowError"
    by (simp add: eve_rate_of_def out_of_range_params_def get_default_def exact_truediv)
  have c: "eveInterceptionRate (clamped out_of_range_params) = Some (IntNum 100) \<and>
      noiseLevel (clamped out_of_range_params) = Some 1 \<and>
      1 \<le> get_default (numQubits out_of_range_params) 20"
    by (simp add: clamped_def out_of_range_params_def clamp_def get_default_def)
  show ?thesis
    using out_of_range_rates_act_as_clamped
        [OF counter_rng_unit_interval exact_arith_monotone rate, of False 0]
      counter_rng_unit_interval exact_arith_monotone rate out_of_range_run c
    by blast
qed

end
